theory Spec2Isabelle
  imports Main
begin

section \<open>WebRunner: the deterministic core, embedded in HOL\<close>

text \<open>
  The development follows the TypeScript sources of the repository: the error classes
  (\<open>core/errors.ts\<close>), the configuration (\<open>core/config.ts\<close>), the state model and its
  differ (\<open>core/state/model.ts\<close>, \<open>core/state/diff.ts\<close>), the selector resolver
  (\<open>core/browser/selectors.ts\<close>), the redaction of artifacts
  (\<open>core/artifacts/redact.ts\<close>), the recovery detectors (\<open>core/execute/recovery.ts\<close>),
  the step executor (\<open>core/execute/executor.ts\<close>), the patch loop of the orchestrator
  (\<open>core/index.ts\<close>) and the macro store (\<open>core/cache/macroStore.ts\<close>).

  Conventions of the embedding.
  \<^item> A JavaScript string is a \<open>string\<close>: one \<open>char\<close> per UTF-16 code unit, for strings
    whose code units are below 256, so that \<open>length\<close> is the \<open>.length\<close> of the source.
  \<^item> An exception is a value of the record \<open>err\<close>; a function that may throw returns
    \<open>err + 'a\<close> with \<open>Inl\<close> for the throw.
  \<^item> The browser page is a value of an abstract type \<open>'w\<close>; what the source asks of
    Playwright is a field of the record \<open>env\<close> that reads or changes the page. The
    browser is launched (\<open>runTask\<close> launches it before it executes a plan), so the
    getter \<open>browser.page\<close> does not throw.
  \<^item> Every call that reaches the page is written to an event trace, in call order.
  \<^item> Wall-clock readings (\<open>Date.now()\<close>, \<open>durationMs\<close>, time stamps) and the text
    of log lines are left out: no function below branches on them.
\<close>

subsection \<open>Strings and the regular expressions the sources use\<close>

text \<open>\<open>String.prototype.toLowerCase\<close> on code units below 256: the ASCII capitals and the
  Latin-1 capitals (all of 192..222 but the multiplication sign 215) move up by 32.\<close>

definition toLowerCase_char :: "char \<Rightarrow> char" where
  "toLowerCase_char c =
     (let n = (of_char c :: nat)
      in if (65 \<le> n \<and> n \<le> 90) \<or> (192 \<le> n \<and> n \<le> 222 \<and> n \<noteq> 215)
         then char_of (n + 32) else c)"

definition toLowerCase :: "string \<Rightarrow> string" where
  "toLowerCase s = map toLowerCase_char s"

fun startsWith :: "string \<Rightarrow> string \<Rightarrow> bool" where
  "startsWith s [] = True"
| "startsWith [] (p # ps) = False"
| "startsWith (c # cs) (p # ps) = (c = p \<and> startsWith cs ps)"

text \<open>\<open>s.includes(t)\<close>: \<open>t\<close> occurs in \<open>s\<close> as a contiguous run.\<close>

fun includes_str :: "string \<Rightarrow> string \<Rightarrow> bool" where
  "includes_str [] t = (t = [])"
| "includes_str (c # cs) t = (startsWith (c # cs) t \<or> includes_str cs t)"

text \<open>\<open>xs.join(sep)\<close>.\<close>

fun join :: "string \<Rightarrow> string list \<Rightarrow> string" where
  "join sep [] = []"
| "join sep [x] = x"
| "join sep (x # y # ys) = x @ sep @ join sep (y # ys)"

text \<open>The decimal rendering of a non-negative integer, as a template literal prints it.\<close>

fun showNat :: "nat \<Rightarrow> string" where
  "showNat n =
     (if n < 10 then [char_of (48 + n)]
      else showNat (n div 10) @ [char_of (48 + n mod 10)])"

declare showNat.simps [simp del]

text \<open>
  The regular expressions of the sources are alternatives of sequences of four kinds of
  item: a literal character, the wildcard \<open>.\<close>, an optional character of a class
  (\<open>[_-]?\<close>) and an optional literal group (\<open>(?:orization)?\<close>). All of them carry the
  flag \<open>i\<close>. Every literal is ASCII, and a character at or above 128 never canonicalizes
  to an ASCII one, so comparing the ASCII upper cases is the comparison the flag makes.
\<close>

datatype ritem = Ch char | AnyCh | OptSet "char list" | OptStr string

type_synonym regex = "ritem list list"

definition canonicalize :: "char \<Rightarrow> char" where
  "canonicalize c =
     (case map_of (zip ''abcdefghijklmnopqrstuvwxyz'' ''ABCDEFGHIJKLMNOPQRSTUVWXYZ'') c of
        Some upper \<Rightarrow> upper
      | None \<Rightarrow> c)"

text \<open>The line terminators below 256: line feed and carriage return.\<close>

definition lineTerminator :: "char \<Rightarrow> bool" where
  "lineTerminator c = (c = CHR 0x0A \<or> c = CHR 0x0D)"

fun startsWithCI :: "string \<Rightarrow> string \<Rightarrow> string option" where
  "startsWithCI s [] = Some s"
| "startsWithCI [] (p # ps) = None"
| "startsWithCI (c # cs) (p # ps) =
     (if canonicalize c = canonicalize p then startsWithCI cs ps else None)"

fun matchHere :: "ritem list \<Rightarrow> string \<Rightarrow> bool" where
  "matchHere [] s = True"
| "matchHere (Ch p # ps) s =
     (case s of [] \<Rightarrow> False | c # cs \<Rightarrow> canonicalize c = canonicalize p \<and> matchHere ps cs)"
| "matchHere (AnyCh # ps) s =
     (case s of [] \<Rightarrow> False | c # cs \<Rightarrow> \<not> lineTerminator c \<and> matchHere ps cs)"
| "matchHere (OptSet cls # ps) s =
     ((case s of [] \<Rightarrow> False | c # cs \<Rightarrow> c \<in> set cls \<and> matchHere ps cs) \<or> matchHere ps s)"
| "matchHere (OptStr t # ps) s =
     ((case startsWithCI s t of None \<Rightarrow> False | Some rest \<Rightarrow> matchHere ps rest)
      \<or> matchHere ps s)"

text \<open>\<open>re.test(s)\<close>: some alternative matches at some position of \<open>s\<close>.\<close>

fun regexTest :: "regex \<Rightarrow> string \<Rightarrow> bool" where
  "regexTest re [] = (\<exists>alt \<in> set re. matchHere alt [])"
| "regexTest re (c # cs) = ((\<exists>alt \<in> set re. matchHere alt (c # cs)) \<or> regexTest re cs)"

definition lit :: "string \<Rightarrow> ritem list" where
  "lit s = map Ch s"

subsection \<open>Errors (\<open>core/errors.ts\<close>)\<close>

datatype WebRunnerErrorCode =
    CAPTCHA_DETECTED | TWO_FA_DETECTED | LOGIN_FAILED | ELEMENT_MISSING | NAVIGATION_FAILED
  | ASSERTION_FAILED | TIMEOUT | SCHEMA_VALIDATION_FAILED | LLM_ERROR | DOWNLOAD_FAILED
  | UNKNOWN

text \<open>The class of a thrown value, for the \<open>instanceof\<close> tests of the executor.
  \<open>ClsForeign\<close> is anything that is not a \<open>WebRunnerError\<close> (a Playwright error, a
  \<open>TypeError\<close>, a thrown string).\<close>

datatype errClass =
    ClsWebRunnerError | ClsCaptchaDetected | ClsTwoFADetected | ClsLoginFailed
  | ClsElementMissing | ClsNavigationFailed | ClsAssertionFailed | ClsTimeoutError
  | ClsSchemaValidationError | ClsLLMError | ClsForeign

datatype details = NoDetails | Attempts "string list" | Detail string

text \<open>\<open>ename\<close> is the \<open>name\<close> property of the error object (each class sets it in its
  constructor). A thrown value that is no \<open>Error\<close> object has the empty name and its
  string rendering as message.\<close>

record err =
  cls :: errClass
  ename :: string
  code :: WebRunnerErrorCode
  message :: string
  recoverable :: bool
  details :: details

definition instanceofWebRunnerError :: "err \<Rightarrow> bool" where
  "instanceofWebRunnerError e = (cls e \<noteq> ClsForeign)"

text \<open>\<open>String(err)\<close>: \<open>Error.prototype.toString\<close> joins name and message with a colon and
  gives the one that is not empty when the other is.\<close>

definition errorToString :: "err \<Rightarrow> string" where
  "errorToString e =
     (if ename e = [] then message e
      else if message e = [] then ename e
      else ename e @ '': '' @ message e)"

definition CaptchaDetected :: err where
  "CaptchaDetected =
     \<lparr>cls = ClsCaptchaDetected, ename = ''CaptchaDetected'', code = CAPTCHA_DETECTED,
      message = ''CAPTCHA detected, human intervention required'',
      recoverable = False, details = NoDetails\<rparr>"

definition TwoFADetected :: err where
  "TwoFADetected =
     \<lparr>cls = ClsTwoFADetected, ename = ''TwoFADetected'', code = TWO_FA_DETECTED,
      message = ''2FA prompt detected, human intervention required'',
      recoverable = False, details = NoDetails\<rparr>"

definition LoginFailed :: err where
  "LoginFailed =
     \<lparr>cls = ClsLoginFailed, ename = ''LoginFailed'', code = LOGIN_FAILED,
      message = ''Login failed or credentials rejected'',
      recoverable = False, details = NoDetails\<rparr>"

definition ElementMissing :: "string \<Rightarrow> details \<Rightarrow> err" where
  "ElementMissing r d =
     \<lparr>cls = ClsElementMissing, ename = ''ElementMissing'', code = ELEMENT_MISSING,
      message = ''Element ref '' @ r @ '' not found in DOM'',
      recoverable = True, details = d\<rparr>"

definition NavigationFailed :: "string \<Rightarrow> details \<Rightarrow> err" where
  "NavigationFailed url d =
     \<lparr>cls = ClsNavigationFailed, ename = ''NavigationFailed'', code = NAVIGATION_FAILED,
      message = ''Navigation to '' @ url @ '' failed'',
      recoverable = True, details = d\<rparr>"

definition isEscalatable :: "err \<Rightarrow> bool" where
  "isEscalatable e =
     (instanceofWebRunnerError e \<and> code e \<in> {CAPTCHA_DETECTED, TWO_FA_DETECTED, LOGIN_FAILED})"

subsection \<open>Configuration (\<open>core/config.ts\<close>)\<close>

text \<open>The time-outs and \<open>maxPatchRounds\<close> are counts; they are natural numbers here.\<close>

record WebRunnerConfig =
  globalTimeoutMs :: nat
  stepTimeoutMs :: nat
  navigationTimeoutMs :: nat
  headless :: bool
  outDir :: string
  model :: string
  allowScreenshots :: bool
  allowTracing :: bool
  redactPatterns :: "regex list"
  maxPatchRounds :: nat

definition defaultConfig :: WebRunnerConfig where
  "defaultConfig =
     \<lparr>globalTimeoutMs = 180000, stepTimeoutMs = 30000, navigationTimeoutMs = 60000,
      headless = True, outDir = ''./out'', model = ''google/gemini-2.0-flash-001'',
      allowScreenshots = True, allowTracing = False,
      redactPatterns =
        [[lit ''password''], [lit ''passwd''], [lit ''secret''], [lit ''token''],
         [lit ''api'' @ [OptSet ''_-''] @ lit ''key''], [lit ''otp''], [lit ''auth''],
         [lit ''credential'']],
      maxPatchRounds = 2\<rparr>"

subsection \<open>The selector resolver (\<open>core/browser/selectors.ts\<close>)\<close>

record SelectorSet =
  primary :: string
  fallback :: "string list"

text \<open>
  What the page answers for one selector: \<open>page.$(selector)\<close> throws (a selector syntax
  error), resolves to \<open>null\<close>, or resolves to a handle; on a handle, \<open>isVisible()\<close>
  throws (the element was detached meanwhile) or answers.
\<close>

datatype visibility = IsVisibleThrows | IsVisible bool

datatype 'h probe = QueryThrows | NoElement | Handle 'h visibility

text \<open>One turn of the \<open>for\<close> loop: the \<open>try\<close> block returns out of the function, falls
  through (no handle) or is left by an exception that the empty \<open>catch\<close> swallows.\<close>

fun tryLoop ::
  "(string \<Rightarrow> 'h probe) \<Rightarrow> string list \<Rightarrow> string list \<Rightarrow>
   (string \<times> 'h) option \<times> string list" where
  "tryLoop page [] probed = (None, probed)"
| "tryLoop page (selector # rest) probed =
     (case page selector of
        QueryThrows \<Rightarrow> tryLoop page rest (probed @ [selector])
      | NoElement \<Rightarrow> tryLoop page rest (probed @ [selector])
      | Handle h IsVisibleThrows \<Rightarrow> tryLoop page rest (probed @ [selector])
      | Handle h (IsVisible visible) \<Rightarrow>
          (if visible then (Some (selector, h), probed @ [selector])
           else (Some (selector, h), probed @ [selector])))"

text \<open>\<open>trySelectors\<close> yields the resolved selector with its handle, or the exception,
  and beside it the selectors it queried the page with, in query order.\<close>

definition trySelectors ::
  "(string \<Rightarrow> 'h probe) \<Rightarrow> SelectorSet \<Rightarrow> (err + (string \<times> 'h)) \<times> string list" where
  "trySelectors page selectorSet =
     (let attempts = primary selectorSet # fallback selectorSet
      in case tryLoop page attempts [] of
           (Some found, probed) \<Rightarrow> (Inr found, probed)
         | (None, probed) \<Rightarrow>
             (Inl (ElementMissing (''(via selectors: '' @ join '', '' attempts @ '')'')
                     (Attempts attempts)),
              probed))"

text \<open>A locator matches a live element when the query yields a handle whose visibility
  probe answers; \<open>liveHandle\<close> is that handle.\<close>

fun liveHandle :: "'h probe \<Rightarrow> 'h option" where
  "liveHandle (Handle h (IsVisible visible)) = Some h"
| "liveHandle _ = None"

subsection \<open>The state model and its differ (\<open>core/state/model.ts\<close>, \<open>core/state/diff.ts\<close>)\<close>

datatype ElementRole =
  RInput | RButton | RLink | RSelect | RTextarea | RCheckbox | RRadio | ROther

fun roleName :: "ElementRole \<Rightarrow> string" where
  "roleName RInput = ''input''"
| "roleName RButton = ''button''"
| "roleName RLink = ''link''"
| "roleName RSelect = ''select''"
| "roleName RTextarea = ''textarea''"
| "roleName RCheckbox = ''checkbox''"
| "roleName RRadio = ''radio''"
| "roleName ROther = ''other''"

record InteractiveElement =
  ref :: string
  role :: ElementRole
  label :: string
  name :: "string option"
  inputType :: "string option"
  valuePresent :: bool
  disabled :: bool
  visible :: bool
  selectors :: SelectorSet
  el_text :: "string option"
  href :: "string option"

record PageSummary =
  headings :: "string list"
  forms :: "string list"
  notices :: "string list"

record StateMeta =
  runId :: string
  timestamp :: string
  url :: string
  title :: string

record CompactState =
  meta :: StateMeta
  pageSummary :: PageSummary
  interactive :: "InteractiveElement list"

text \<open>A \<open>Partial<InteractiveElement>\<close> as the differ fills it: the tracked fields that
  were assigned, in assignment order, each with its value.\<close>

datatype field = FLabel | FDisabled | FVisible | FValuePresent | FText | FHref

datatype fieldValue = VString string | VBoolean bool | VUndefined

record ChangedEntry =
  ce_ref :: string
  before :: "(field \<times> fieldValue) list"
  after :: "(field \<times> fieldValue) list"

record StateDiff =
  added :: "InteractiveElement list"
  removed :: "InteractiveElement list"
  changed :: "ChangedEntry list"

text \<open>
  A JavaScript \<open>Map\<close> is the list of its entries in insertion order. \<open>set\<close> on a key
  that is present replaces the value and keeps the position.
\<close>

type_synonym ElementMap = "(string \<times> InteractiveElement) list"

fun mapSet :: "('k \<times> 'v) list \<Rightarrow> 'k \<Rightarrow> 'v \<Rightarrow> ('k \<times> 'v) list" where
  "mapSet [] k v = [(k, v)]"
| "mapSet ((k', v') # m) k v = (if k' = k then (k, v) # m else (k', v') # mapSet m k v)"

definition mapHas :: "('k \<times> 'v) list \<Rightarrow> 'k \<Rightarrow> bool" where
  "mapHas m k = (map_of m k \<noteq> None)"

definition mapGet :: "('k \<times> 'v) list \<Rightarrow> 'k \<Rightarrow> 'v option" where
  "mapGet m k = map_of m k"

definition indexByRef :: "InteractiveElement list \<Rightarrow> ElementMap" where
  "indexByRef elements = foldl (\<lambda>m el. mapSet m (ref el) el) [] elements"

definition TRACKED_FIELDS :: "field list" where
  "TRACKED_FIELDS = [FLabel, FDisabled, FVisible, FValuePresent, FText, FHref]"

fun optString :: "string option \<Rightarrow> fieldValue" where
  "optString None = VUndefined"
| "optString (Some s) = VString s"

fun getField :: "InteractiveElement \<Rightarrow> field \<Rightarrow> fieldValue" where
  "getField el FLabel = VString (label el)"
| "getField el FDisabled = VBoolean (disabled el)"
| "getField el FVisible = VBoolean (visible el)"
| "getField el FValuePresent = VBoolean (valuePresent el)"
| "getField el FText = optString (el_text el)"
| "getField el FHref = optString (href el)"

text \<open>The loop of \<open>changed\<close> over the tracked fields, with \<open>bDiff\<close> and \<open>aDiff\<close>.\<close>

fun changedLoop ::
  "InteractiveElement \<Rightarrow> InteractiveElement \<Rightarrow> field list \<Rightarrow>
   (field \<times> fieldValue) list \<Rightarrow> (field \<times> fieldValue) list \<Rightarrow>
   (field \<times> fieldValue) list \<times> (field \<times> fieldValue) list" where
  "changedLoop b a [] bDiff aDiff = (bDiff, aDiff)"
| "changedLoop b a (f # fs) bDiff aDiff =
     (if getField b f \<noteq> getField a f
      then changedLoop b a fs (bDiff @ [(f, getField b f)]) (aDiff @ [(f, getField a f)])
      else changedLoop b a fs bDiff aDiff)"

definition changedFields ::
  "InteractiveElement \<Rightarrow> InteractiveElement \<Rightarrow>
   ((field \<times> fieldValue) list \<times> (field \<times> fieldValue) list) option" where
  "changedFields b a =
     (case changedLoop b a TRACKED_FIELDS [] [] of
        (bDiff, aDiff) \<Rightarrow> if length bDiff = 0 then None else Some (bDiff, aDiff))"

text \<open>The first loop of \<open>diffStates\<close>, over the entries of \<open>currMap\<close>. A reference that
  \<open>prevMap\<close> has always has a value there; the branch for a missing value is the
  non-null assertion \<open>prevMap.get(ref)!\<close> and is never taken.\<close>

fun currLoop ::
  "ElementMap \<Rightarrow> (string \<times> InteractiveElement) list \<Rightarrow>
   InteractiveElement list \<Rightarrow> ChangedEntry list \<Rightarrow>
   InteractiveElement list \<times> ChangedEntry list" where
  "currLoop prevMap [] addedAcc changedList = (addedAcc, changedList)"
| "currLoop prevMap ((r, currEl) # rest) addedAcc changedList =
     (if \<not> mapHas prevMap r then currLoop prevMap rest (addedAcc @ [currEl]) changedList
      else (case mapGet prevMap r of
              None \<Rightarrow> currLoop prevMap rest addedAcc changedList
            | Some prevEl \<Rightarrow>
                (case changedFields prevEl currEl of
                   None \<Rightarrow> currLoop prevMap rest addedAcc changedList
                 | Some (b, a) \<Rightarrow>
                     currLoop prevMap rest addedAcc
                       (changedList @ [\<lparr>ce_ref = r, before = b, after = a\<rparr>]))))"

text \<open>The second loop, over the entries of \<open>prevMap\<close>.\<close>

fun prevLoop ::
  "ElementMap \<Rightarrow> (string \<times> InteractiveElement) list \<Rightarrow> InteractiveElement list \<Rightarrow>
   InteractiveElement list" where
  "prevLoop currMap [] removedAcc = removedAcc"
| "prevLoop currMap ((r, prevEl) # rest) removedAcc =
     (if \<not> mapHas currMap r then prevLoop currMap rest (removedAcc @ [prevEl])
      else prevLoop currMap rest removedAcc)"

definition diffStates :: "CompactState \<Rightarrow> CompactState \<Rightarrow> StateDiff" where
  "diffStates prevState currState =
     (let prevMap = indexByRef (interactive prevState);
          currMap = indexByRef (interactive currState)
      in case currLoop prevMap currMap [] [] of
           (addedL, changedList) \<Rightarrow>
             \<lparr>added = addedL, removed = prevLoop currMap prevMap [], changed = changedList\<rparr>)"

subsection \<open>Redaction of artifacts (\<open>core/artifacts/redact.ts\<close>)\<close>

text \<open>
  A JSON-like value. An object is the list of its own enumerable entries in the order
  \<open>Object.entries\<close> yields them; its keys are distinct. Numbers are never inspected; they
  are integers here.
\<close>

datatype json =
    JNull | JBool bool | JNum int | JStr string | JArr "json list"
  | JObj "(string \<times> json) list"

definition SECRET_KEY_PATTERNS :: "regex list" where
  "SECRET_KEY_PATTERNS =
     [[lit ''password''], [lit ''passwd''], [lit ''secret''], [lit ''token''],
      [lit ''api'' @ [OptSet ''_-''] @ lit ''key''], [lit ''otp''],
      [lit ''auth'' @ [OptStr ''orization'']], [lit ''credential''],
      [lit ''private'' @ [OptSet ''_-''] @ lit ''key''],
      [lit ''access'' @ [OptSet ''_-''] @ lit ''key'']]"

definition isSecretKey :: "string \<Rightarrow> regex list \<Rightarrow> bool" where
  "isSecretKey key patterns = list_ex (\<lambda>p. regexTest p key) patterns"

fun isString :: "json \<Rightarrow> bool" where
  "isString (JStr s) = True"
| "isString _ = False"

definition redactedMarker :: "string \<Rightarrow> string" where
  "redactedMarker val = ''[REDACTED:'' @ showNat (length val) @ '']''"

text \<open>
  The loop of the source starts from \<open>result = {}\<close> and does \<open>result[key] = ...\<close> once per
  entry, in the order of the entries, in each of its three branches. For every key but
  \<open>__proto__\<close> the assignment writes an own property. \<open>__proto__\<close> is an accessor that
  \<open>result\<close> inherits from \<open>Object.prototype\<close> (and an own key that \<open>JSON.parse\<close> can
  create on the input): assigning it runs the setter, which makes an object or \<open>null\<close>
  the prototype of \<open>result\<close> and ignores any other value; no own property is written.
  The result is represented by its own enumerable entries, which are what
  \<open>JSON.stringify\<close> writes; they are the images of the input's entries other than
  \<open>__proto__\<close>, in the same order.
\<close>

definition writesOwnProperty :: "string \<Rightarrow> bool" where
  "writesOwnProperty key = (key \<noteq> ''__proto__'')"

fun redactSecrets :: "json \<Rightarrow> string list \<Rightarrow> regex list \<Rightarrow> json" where
  "redactSecrets JNull allowlist patterns = JNull"
| "redactSecrets (JArr items) allowlist patterns =
     JArr (map (\<lambda>item. redactSecrets item allowlist patterns) items)"
| "redactSecrets (JObj entries) allowlist patterns =
     JObj (map (\<lambda>(key, val).
                  (key,
                   if key \<in> set allowlist then val
                   else if isSecretKey key patterns \<and> isString val
                     then (case val of JStr str \<Rightarrow> JStr (redactedMarker str) | _ \<Rightarrow> val)
                   else redactSecrets val allowlist patterns))
             (filter (\<lambda>(key, val). writesOwnProperty key) entries))"
| "redactSecrets (JBool b) allowlist patterns = JBool b"
| "redactSecrets (JNum n) allowlist patterns = JNum n"
| "redactSecrets (JStr str) allowlist patterns = JStr str"

text \<open>What \<open>writeJsonArtifact\<close> passes on: the default patterns, the caller's allow-list.\<close>

definition redactForArtifact :: "json \<Rightarrow> string list \<Rightarrow> json" where
  "redactForArtifact data allowlist = redactSecrets data allowlist SECRET_KEY_PATTERNS"

text \<open>No key of the value, at any depth, matches a pattern or is \<open>__proto__\<close>.\<close>

fun noSecretKeys :: "json \<Rightarrow> regex list \<Rightarrow> bool" where
  "noSecretKeys (JArr items) patterns = (\<forall>item \<in> set items. noSecretKeys item patterns)"
| "noSecretKeys (JObj entries) patterns =
     (\<forall>(key, val) \<in> set entries.
        \<not> isSecretKey key patterns \<and> writesOwnProperty key \<and> noSecretKeys val patterns)"
| "noSecretKeys _ patterns = True"

fun isScalar :: "json \<Rightarrow> bool" where
  "isScalar (JArr items) = False"
| "isScalar (JObj entries) = False"
| "isScalar _ = True"

subsection \<open>Plans (\<open>core/planning/schemas.ts\<close>)\<close>

definition stepOps :: "string list" where
  "stepOps =
     [''navigate'', ''click'', ''type'', ''select'', ''waitFor'', ''extract'', ''screenshot'',
      ''scroll'']"

text \<open>\<open>op\<close> is a string: a plan that \<open>repairPlan\<close> lets through was not checked against
  the schema's enumeration.\<close>

record Step =
  step_id :: string
  op :: string
  step_url :: "string option"
  step_ref :: "string option"
  step_text :: "string option"
  step_value :: "string option"
  step_kind :: "string option"
  timeoutMs :: "int option"
  schemaRef :: "string option"
  step_out :: "string option"
  direction :: "string option"
  amount :: "int option"

record Assertion =
  kind :: string
  as_value :: "string option"
  as_ref :: "string option"
  filePattern :: "string option"

record OnFailure =
  retryMaxAttempts :: "int option"
  escalateIf :: "string list option"

record Plan =
  goal :: string
  assumptions :: "string list option"
  steps :: "Step list"
  assertions :: "Assertion list option"
  onFailure :: "OnFailure option"
  plan_schemaVersion :: "string option"

subsection \<open>Recovery detectors (\<open>core/execute/recovery.ts\<close>)\<close>

record Hint =
  hint_label :: "string option"
  hint_role :: "string option"

text \<open>\<open>hint.role &&\<close> and \<open>if (hint.label)\<close>: a string is truthy when it is present and
  not empty.\<close>

fun truthy :: "string option \<Rightarrow> bool" where
  "truthy None = False"
| "truthy (Some s) = (s \<noteq> [])"

fun fuzzyCandidate :: "Hint \<Rightarrow> InteractiveElement \<Rightarrow> bool" where
  "fuzzyCandidate hint el =
     (if truthy (hint_role hint) \<and> Some (roleName (role el)) \<noteq> hint_role hint then False
      else (case hint_label hint of
              Some l \<Rightarrow>
                (if l \<noteq> [] then
                   (let normalLabel = toLowerCase (label el);
                        normalHint = toLowerCase l
                    in includes_str normalLabel normalHint \<or> includes_str normalHint normalLabel)
                 else True)
            | None \<Rightarrow> True))"

definition fuzzyRefResolve ::
  "string \<Rightarrow> CompactState \<Rightarrow> Hint option \<Rightarrow> InteractiveElement option" where
  "fuzzyRefResolve missingRef currentState hint =
     (case hint of
        None \<Rightarrow> None
      | Some h \<Rightarrow>
          (case filter (fuzzyCandidate h) (interactive currentState) of
             [] \<Rightarrow> None
           | candidate # others \<Rightarrow> Some candidate))"

text \<open>
  What the executor asks of the browser and of the file system, over an abstract page
  \<open>'w\<close>. \<open>innerText\<close> is \<open>document.body.innerText\<close> read through \<open>page.evaluate\<close> and
  \<open>captchaIframe\<close> the query for a CAPTCHA provider's frame; both are \<open>None\<close> when the
  promise rejects. \<open>handleCookieBanner\<close> and \<open>dismissModal\<close> yield the page after the
  attempt (the executor drops their result and swallows their rejection). \<open>perform\<close> is
  one method of \<open>BrowserController\<close>: it yields the selector used or the exception, and
  the page after the call. \<open>collectState\<close> is \<open>None\<close> when it throws.
  \<open>checkAssertion\<close> is the exception of one assertion, if any.
\<close>

datatype browserCall =
    Navigate string | Click SelectorSet | TypeInto SelectorSet string
  | SelectOption SelectorSet string | WaitFor string "int option" | Screenshot
  | Scroll string "int option" | EvaluateBodyText

record 'w env =
  innerText :: "'w \<Rightarrow> string option"
  captchaIframe :: "'w \<Rightarrow> bool option"
  handleCookieBanner :: "'w \<Rightarrow> 'w"
  dismissModal :: "'w \<Rightarrow> 'w"
  perform :: "browserCall \<Rightarrow> 'w \<Rightarrow> (err + string) \<times> 'w"
  collectState :: "'w \<Rightarrow> string \<Rightarrow> CompactState option"
  checkAssertion :: "Assertion \<Rightarrow> 'w \<Rightarrow> err option"
  currentUrl :: "'w \<Rightarrow> string"
  writeJsonArtifact :: "string \<Rightarrow> 'w \<Rightarrow> err option"

definition captchaRegex :: regex where
  "captchaRegex =
     [lit ''captcha'', lit ''recaptcha'', lit (''i'' @ [CHR 0x27] @ ''m not a robot''),
      lit ''bot detection'']"

definition twoFARegex :: regex where
  "twoFARegex =
     [lit ''two'' @ [AnyCh] @ lit ''factor'', lit ''2fa'', lit ''verification code'',
      lit ''authenticator'', lit ''otp'', lit ''one'' @ [AnyCh] @ lit ''time'']"

definition pageText :: "'w env \<Rightarrow> 'w \<Rightarrow> string" where
  "pageText env w = (case innerText env w of None \<Rightarrow> [] | Some t \<Rightarrow> toLowerCase t)"

definition detectCaptcha :: "'w env \<Rightarrow> 'w \<Rightarrow> bool" where
  "detectCaptcha env w =
     (let hasCaptchaText = regexTest captchaRegex (pageText env w);
          hasCaptchaIframe = (case captchaIframe env w of None \<Rightarrow> False | Some b \<Rightarrow> b)
      in hasCaptchaText \<or> hasCaptchaIframe)"

definition detect2FA :: "'w env \<Rightarrow> 'w \<Rightarrow> bool" where
  "detect2FA env w = regexTest twoFARegex (pageText env w)"

subsection \<open>The step executor (\<open>core/execute/executor.ts\<close>)\<close>

datatype StepStatus = Success | Skipped | Failed

record StepResult =
  sr_id :: string
  sr_op :: string
  sr_status :: StepStatus
  selectorUsed :: "string option"
  sr_error :: "string option"

record FailedAssertion =
  fa_kind :: string
  expected :: "string option"
  fa_error :: string

record AssertionResult =
  passed :: bool
  failed :: "FailedAssertion list"

record RunLog =
  planGoal :: string
  rl_steps :: "StepResult list"
  assertionResult :: "AssertionResult option"
  finalUrl :: string

text \<open>The calls that reach the page, in call order. The detector events carry what the
  detector answered.\<close>

datatype event =
    EvCookieBanner | EvDismissModal | EvDetectCaptcha bool | EvDetect2FA bool
  | EvBrowser browserCall | EvCollectState | EvCheckAssertion | EvWriteArtifact

type_synonym 'w session = "'w \<times> event list"

definition resolveRef :: "string option \<Rightarrow> CompactState \<Rightarrow> err + InteractiveElement" where
  "resolveRef r state =
     (case r of
        None \<Rightarrow> Inl (ElementMissing ''(undefined ref)'' NoDetails)
      | Some rf \<Rightarrow>
          (if rf = [] then Inl (ElementMissing ''(undefined ref)'' NoDetails)
           else (case find (\<lambda>e. ref e = rf) (interactive state) of
                   Some el \<Rightarrow> Inr el
                 | None \<Rightarrow>
                     (case fuzzyRefResolve rf state None of
                        Some fuzzy \<Rightarrow> Inr fuzzy
                      | None \<Rightarrow> Inl (ElementMissing rf NoDetails)))))"

text \<open>\<open>a ?? b\<close> on an optional string.\<close>

fun orElse :: "string option \<Rightarrow> string \<Rightarrow> string" where
  "orElse None d = d"
| "orElse (Some s) d = s"

text \<open>One browser call: it is written to the trace; \<open>keep\<close> says whether the caller
  returns the selector the call yields or \<open>undefined\<close>.\<close>

definition callBrowser ::
  "'w env \<Rightarrow> browserCall \<Rightarrow> bool \<Rightarrow> 'w session \<Rightarrow> (err + string option) \<times> 'w session" where
  "callBrowser env c keep sess =
     (case sess of (w, tr) \<Rightarrow>
        (case perform env c w of
           (Inl e, w') \<Rightarrow> (Inl e, (w', tr @ [EvBrowser c]))
         | (Inr sel, w') \<Rightarrow> (Inr (if keep then Some sel else None), (w', tr @ [EvBrowser c]))))"

definition executeStep ::
  "'w env \<Rightarrow> Step \<Rightarrow> CompactState \<Rightarrow> 'w session \<Rightarrow> (err + string option) \<times> 'w session" where
  "executeStep env step currentState sess =
     (if op step = ''navigate'' then
        (if \<not> truthy (step_url step)
         then (Inl (NavigationFailed ''(missing url)''
                      (Detail ''step.url is required for navigate op'')), sess)
         else callBrowser env (Navigate (orElse (step_url step) [])) False sess)
      else if op step = ''click'' then
        (case resolveRef (step_ref step) currentState of
           Inl e \<Rightarrow> (Inl e, sess)
         | Inr el \<Rightarrow> callBrowser env (Click (selectors el)) True sess)
      else if op step = ''type'' then
        (case resolveRef (step_ref step) currentState of
           Inl e \<Rightarrow> (Inl e, sess)
         | Inr el \<Rightarrow>
             callBrowser env (TypeInto (selectors el) (orElse (step_text step) [])) False sess)
      else if op step = ''select'' then
        (case resolveRef (step_ref step) currentState of
           Inl e \<Rightarrow> (Inl e, sess)
         | Inr el \<Rightarrow>
             callBrowser env (SelectOption (selectors el) (orElse (step_value step) [])) True sess)
      else if op step = ''waitFor'' then
        callBrowser env (WaitFor (orElse (step_kind step) ''networkIdle'') (timeoutMs step))
          False sess
      else if op step = ''screenshot'' then callBrowser env Screenshot False sess
      else if op step = ''scroll'' then
        callBrowser env (Scroll (orElse (direction step) ''down'') (amount step)) False sess
      else if op step = ''extract'' then callBrowser env EvaluateBodyText False sess
      else (Inr None, sess))"

text \<open>The \<open>try\<close> block of one iteration: the two detectors, then the step.\<close>

definition tryStep ::
  "'w env \<Rightarrow> Step \<Rightarrow> CompactState \<Rightarrow> 'w session \<Rightarrow> (err + string option) \<times> 'w session" where
  "tryStep env step currentState sess =
     (case sess of (w, tr) \<Rightarrow>
        (if detectCaptcha env w then (Inl CaptchaDetected, (w, tr @ [EvDetectCaptcha True]))
         else if detect2FA env w
           then (Inl TwoFADetected, (w, tr @ [EvDetectCaptcha False, EvDetect2FA True]))
         else executeStep env step currentState
                (w, tr @ [EvDetectCaptcha False, EvDetect2FA False])))"

definition successResult :: "Step \<Rightarrow> string option \<Rightarrow> StepResult" where
  "successResult step sel =
     \<lparr>sr_id = step_id step, sr_op = op step, sr_status = Success, selectorUsed = sel,
      sr_error = None\<rparr>"

definition failedResult :: "Step \<Rightarrow> err \<Rightarrow> StepResult" where
  "failedResult step e =
     \<lparr>sr_id = step_id step, sr_op = op step, sr_status = Failed, selectorUsed = None,
      sr_error = Some (message e)\<rparr>"

text \<open>The \<open>catch\<close> block after the result is pushed: what is done to the page before the
  \<open>break\<close>.\<close>

definition afterFailure :: "'w env \<Rightarrow> err \<Rightarrow> 'w session \<Rightarrow> 'w session" where
  "afterFailure env e sess =
     (let isEscalatable = (cls e = ClsCaptchaDetected \<or> cls e = ClsTwoFADetected)
      in if isEscalatable \<or> (instanceofWebRunnerError e \<and> \<not> recoverable e) then sess
         else if cls e = ClsElementMissing
           then (case sess of (w, tr) \<Rightarrow>
                   (dismissModal env (handleCookieBanner env w),
                    tr @ [EvCookieBanner, EvDismissModal]))
         else sess)"

text \<open>The \<open>for\<close> loop over \<open>plan.steps\<close>, with \<open>stepResults\<close> and \<open>currentState\<close>. Every
  path through the \<open>catch\<close> block ends in \<open>break\<close>.\<close>

fun stepLoop ::
  "'w env \<Rightarrow> Step list \<Rightarrow> CompactState \<Rightarrow> StepResult list \<Rightarrow> 'w session \<Rightarrow>
   StepResult list \<times> CompactState \<times> 'w session" where
  "stepLoop env [] currentState stepResults sess = (stepResults, currentState, sess)"
| "stepLoop env (step # rest) currentState stepResults sess =
     (case tryStep env step currentState sess of
        (Inr sel, (w, tr)) \<Rightarrow>
          stepLoop env rest
            (case collectState env w (runId (meta currentState)) of
               None \<Rightarrow> currentState
             | Some fresh \<Rightarrow> fresh)
            (stepResults @ [successResult step sel])
            (w, tr @ [EvCollectState])
      | (Inl e, sess') \<Rightarrow>
          (stepResults @ [failedResult step e], currentState, afterFailure env e sess'))"

text \<open>\<open>runAssertions\<close> (\<open>core/execute/assertions.ts\<close>).\<close>

fun assertionLoop ::
  "'w env \<Rightarrow> Assertion list \<Rightarrow> 'w \<Rightarrow> FailedAssertion list \<Rightarrow> FailedAssertion list" where
  "assertionLoop env [] w failedAcc = failedAcc"
| "assertionLoop env (a # rest) w failedAcc =
     (case checkAssertion env a w of
        None \<Rightarrow> assertionLoop env rest w failedAcc
      | Some e \<Rightarrow>
          (if cls e = ClsAssertionFailed
           then assertionLoop env rest w
                  (failedAcc @
                   [\<lparr>fa_kind = kind a, expected = as_value a, fa_error = message e\<rparr>])
           else assertionLoop env rest w
                  (failedAcc @
                   [\<lparr>fa_kind = kind a, expected = None, fa_error = errorToString e\<rparr>])))"

definition runAssertions :: "'w env \<Rightarrow> Assertion list \<Rightarrow> 'w \<Rightarrow> AssertionResult" where
  "runAssertions env as w =
     (let failedL = assertionLoop env as w [] in \<lparr>passed = (length failedL = 0), failed = failedL\<rparr>)"

text \<open>\<open>executePlan\<close>: the run log, or the exception of the final write, and the session.\<close>

definition executePlan ::
  "'w env \<Rightarrow> Plan \<Rightarrow> CompactState \<Rightarrow> string \<Rightarrow> 'w session \<Rightarrow> (err + RunLog) \<times> 'w session" where
  "executePlan env plan currentState runlogPath sess =
     (case sess of (w0, tr0) \<Rightarrow>
        (case stepLoop env (steps plan) currentState []
                (dismissModal env (handleCookieBanner env w0),
                 tr0 @ [EvCookieBanner, EvDismissModal]) of
           (stepResults, lastState, (w, tr)) \<Rightarrow>
             (let (asserted, tr1) =
                    (case assertions plan of
                       None \<Rightarrow> (None, tr)
                     | Some as \<Rightarrow>
                         (if length as > 0
                          then (Some (runAssertions env as w), tr @ map (\<lambda>a. EvCheckAssertion) as)
                          else (None, tr)));
                  runLog = \<lparr>planGoal = goal plan, rl_steps = stepResults,
                            assertionResult = asserted, finalUrl = currentUrl env w\<rparr>
              in (case writeJsonArtifact env runlogPath w of
                    Some e \<Rightarrow> (Inl e, (w, tr1 @ [EvWriteArtifact]))
                  | None \<Rightarrow> (Inr runLog, (w, tr1 @ [EvWriteArtifact]))))))"

text \<open>
  A trace is guarded when every browser call in it comes right after a CAPTCHA check and
  a 2FA check that both answered \<open>false\<close>.
\<close>

fun guarded :: "event list \<Rightarrow> bool" where
  "guarded [] = True"
| "guarded (EvDetectCaptcha False # EvDetect2FA False # EvBrowser c # es) = guarded es"
| "guarded (EvBrowser c # es) = False"
| "guarded (e # es) = guarded es"

fun isCaptchaCheck :: "event \<Rightarrow> bool" where
  "isCaptchaCheck (EvDetectCaptcha b) = True"
| "isCaptchaCheck _ = False"

fun isBrowserCall :: "event \<Rightarrow> bool" where
  "isBrowserCall (EvBrowser c) = True"
| "isBrowserCall _ = False"

subsection \<open>The patch loop of the orchestrator (\<open>core/index.ts\<close>, \<open>runTask\<close>, step 6)\<close>

record Evidence =
  ev_url :: "string option"
  keyTexts :: "string list option"
  files :: "string list option"

text \<open>\<open>status\<close> is a string: \<open>repairVerdict\<close> returns what the oracle sent without
  checking it against the three statuses of the schema.\<close>

record Verdict =
  status :: string
  summary :: string
  evidence :: "Evidence option"
  patchPlan :: "string option"
  reason :: "string option"
  nextAction :: "string option"
  schemaVersion :: "string option"

text \<open>
  One iteration of the loop, after the counter is incremented, asks the oracle for a patch
  plan, writes it, executes it, observes the page again and asks for a new verdict. All of
  that is the parameter \<open>body\<close>: given the round number, the verdict before the round and
  the world, it yields the new verdict, or the exception that leaves \<open>runTask\<close>, and the
  world after the round. The loop control is the source's.

  The result keeps what \<open>runTask\<close> holds when the loop is left: the verdict (or the
  exception), the counter \<open>patchRound\<close>, and the verdicts the rounds produced, in order.
\<close>

record 'w loopResult =
  outcome :: "err + Verdict"
  patchRound :: nat
  verdicts :: "Verdict list"
  world :: 'w

function patchLoop ::
  "(nat \<Rightarrow> Verdict \<Rightarrow> 'w \<Rightarrow> (err + Verdict) \<times> 'w) \<Rightarrow> WebRunnerConfig \<Rightarrow>
   Verdict \<Rightarrow> nat \<Rightarrow> Verdict list \<Rightarrow> 'w \<Rightarrow> 'w loopResult" where
  "patchLoop body config verdict round hist w =
     (if status verdict = ''patch'' \<and> round < maxPatchRounds config then
        (case body (round + 1) verdict w of
           (Inl e, w') \<Rightarrow>
             \<lparr>outcome = Inl e, patchRound = round + 1, verdicts = hist, world = w'\<rparr>
         | (Inr verdict', w') \<Rightarrow>
             patchLoop body config verdict' (round + 1) (hist @ [verdict']) w')
      else \<lparr>outcome = Inr verdict, patchRound = round, verdicts = hist, world = w\<rparr>)"
  by pat_completeness auto
termination
  by (relation "measure (\<lambda>(body, config, verdict, round, hist, w). maxPatchRounds config - round)")
     auto

declare patchLoop.simps [simp del]

text \<open>The loop as \<open>runTask\<close> enters it: \<open>let patchRound = 0\<close>.\<close>

definition runPatchLoop ::
  "(nat \<Rightarrow> Verdict \<Rightarrow> 'w \<Rightarrow> (err + Verdict) \<times> 'w) \<Rightarrow> WebRunnerConfig \<Rightarrow>
   Verdict \<Rightarrow> 'w \<Rightarrow> 'w loopResult" where
  "runPatchLoop body config verdict w = patchLoop body config verdict 0 [] w"

subsection \<open>Macro parameters (\<open>core/cache/macroStore.ts\<close>, \<open>applyParams\<close>)\<close>

text \<open>\<open>\w\<close>: a letter, a digit or the underscore.\<close>

definition wordChar :: "char \<Rightarrow> bool" where
  "wordChar c =
     (c \<in> set ''abcdefghijklmnopqrstuvwxyzABCDEFGHIJKLMNOPQRSTUVWXYZ0123456789_'')"

text \<open>
  \<open>planStr.replace(/\{(\w+)\}/g, replacer)\<close>. The scan goes left to right. At an opening
  brace the greedy \<open>\w+\<close> takes the longest run of word characters; the match succeeds
  when the run is not empty and a closing brace follows (a shorter run would be followed
  by a word character, so backtracking cannot help). A match is replaced by the
  replacer's text for the run and the scan goes on after the closing brace; otherwise the
  character is copied and the scan goes on at the next one.
\<close>

function replaceTokens :: "(string \<Rightarrow> string) \<Rightarrow> string \<Rightarrow> string" where
  "replaceTokens replacer [] = []"
| "replaceTokens replacer (c # cs) =
     (if c = CHR ''{'' \<and> takeWhile wordChar cs \<noteq> []
          \<and> startsWith (dropWhile wordChar cs) ''}''
      then replacer (takeWhile wordChar cs) @ replaceTokens replacer (tl (dropWhile wordChar cs))
      else c # replaceTokens replacer cs)"
  by pat_completeness auto
termination
proof (relation "measure (\<lambda>(replacer, s). length s)")
  show "wf (measure (\<lambda>(replacer, s). length s))" by simp
next
  fix replacer :: "string \<Rightarrow> string" and c :: char and cs :: string
  have "length (tl (dropWhile wordChar cs)) \<le> length cs"
    using length_dropWhile_le[of wordChar cs] by simp
  then show "((replacer, tl (dropWhile wordChar cs)), (replacer, c # cs))
               \<in> measure (\<lambda>(replacer, s). length s)"
    by simp
next
  fix replacer :: "string \<Rightarrow> string" and c :: char and cs :: string
  show "((replacer, cs), (replacer, c # cs)) \<in> measure (\<lambda>(replacer, s). length s)"
    by simp
qed

text \<open>
  \<open>params[key]\<close> on a plain object (the replay command builds \<open>params\<close> as \<open>{}\<close> or
  reads it with \<open>JSON.parse\<close>). \<open>params\<close> is the list of the object's own properties.
  A key that is not an own property is looked up on \<open>Object.prototype\<close>, whose members
  all have names made of word characters; the replacer's result is converted to a
  string by \<open>replace\<close>, which for a built-in function is its source text as Node prints
  it and for \<open>__proto__\<close> (the prototype object itself) is \<open>[object Object]\<close>.
\<close>

definition nativeFunctionText :: "string \<Rightarrow> string" where
  "nativeFunctionText fname = ''function '' @ fname @ ''() { [native code] }''"

definition objectPrototypeText :: "(string \<times> string) list" where
  "objectPrototypeText =
     [(''constructor'', nativeFunctionText ''Object''),
      (''__defineGetter__'', nativeFunctionText ''__defineGetter__''),
      (''__defineSetter__'', nativeFunctionText ''__defineSetter__''),
      (''hasOwnProperty'', nativeFunctionText ''hasOwnProperty''),
      (''__lookupGetter__'', nativeFunctionText ''__lookupGetter__''),
      (''__lookupSetter__'', nativeFunctionText ''__lookupSetter__''),
      (''isPrototypeOf'', nativeFunctionText ''isPrototypeOf''),
      (''propertyIsEnumerable'', nativeFunctionText ''propertyIsEnumerable''),
      (''toString'', nativeFunctionText ''toString''),
      (''valueOf'', nativeFunctionText ''valueOf''),
      (''__proto__'', ''[object Object]''),
      (''toLocaleString'', nativeFunctionText ''toLocaleString'')]"

definition getProperty :: "(string \<times> string) list \<Rightarrow> string \<Rightarrow> string option" where
  "getProperty params key =
     (case map_of params key of
        Some v \<Rightarrow> Some v
      | None \<Rightarrow> map_of objectPrototypeText key)"

text \<open>The replacer: \<open>(_, key) => params[key] ?? `{${key}}`\<close>.\<close>

definition paramReplacer :: "(string \<times> string) list \<Rightarrow> string \<Rightarrow> string" where
  "paramReplacer params key =
     (case getProperty params key of
        Some v \<Rightarrow> v
      | None \<Rightarrow> ''{'' @ key @ ''}'')"

definition fillParams :: "(string \<times> string) list \<Rightarrow> string \<Rightarrow> string" where
  "fillParams params planStr = replaceTokens (paramReplacer params) planStr"

text \<open>The text holds a token: somewhere an opening brace, a non-empty run of word
  characters and a closing brace.\<close>

fun hasToken :: "string \<Rightarrow> bool" where
  "hasToken [] = False"
| "hasToken (c # cs) =
     ((c = CHR ''{'' \<and> takeWhile wordChar cs \<noteq> [] \<and> startsWith (dropWhile wordChar cs) ''}'')
      \<or> hasToken cs)"

text \<open>\<open>JSON.stringify\<close> and \<open>JSON.parse\<close> are the runtime's; they are parameters. \<open>parse\<close>
  yields the \<open>SyntaxError\<close> when the filled text is not JSON.\<close>

definition applyParams ::
  "('p \<Rightarrow> string) \<Rightarrow> (string \<Rightarrow> err + 'p) \<Rightarrow> 'p \<Rightarrow> (string \<times> string) list \<Rightarrow> err + 'p" where
  "applyParams stringify parse plan params = parse (fillParams params (stringify plan))"

subsection \<open>Concrete inputs\<close>

definition mkVerdict :: "string \<Rightarrow> Verdict" where
  "mkVerdict s =
     \<lparr>status = s, summary = [], evidence = None, patchPlan = None, reason = None,
      nextAction = None, schemaVersion = None\<rparr>"

text \<open>An oracle that answers \<open>escalate\<close> in round \<open>n\<close> and \<open>patch\<close> in every other round.\<close>

definition escalateAtRound :: "nat \<Rightarrow> nat \<Rightarrow> Verdict \<Rightarrow> unit \<Rightarrow> (err + Verdict) \<times> unit" where
  "escalateAtRound n k v w = (Inr (mkVerdict (if k = n then ''escalate'' else ''patch'')), w)"

text \<open>A page on which \<open>#gone\<close> matches nothing, \<open>bad[\<close> is a syntax error, \<open>h1\<close> matches a
  hidden element and \<open>a\<close> a visible one.\<close>

fun samplePage :: "string \<Rightarrow> nat probe" where
  "samplePage s =
     (if s = ''h1'' then Handle 1 (IsVisible False)
      else if s = ''a'' then Handle 2 (IsVisible True)
      else if s = ''bad['' then QueryThrows
      else NoElement)"

text \<open>The element and the state that the unit tests of the differ build.\<close>

definition mkElement :: "string \<Rightarrow> string \<Rightarrow> InteractiveElement" where
  "mkElement r l =
     \<lparr>ref = r, role = RButton, label = l, name = None, inputType = None,
      valuePresent = False, disabled = False, visible = True,
      selectors = \<lparr>primary = CHR ''#'' # r, fallback = []\<rparr>, el_text = None, href = None\<rparr>"

definition mkState :: "string \<Rightarrow> InteractiveElement list \<Rightarrow> CompactState" where
  "mkState ts els =
     \<lparr>meta = \<lparr>runId = ''test'', timestamp = ts, url = ''https://example.com'', title = ''Test''\<rparr>,
      pageSummary = \<lparr>headings = [], forms = [], notices = []\<rparr>,
      interactive = els\<rparr>"

text \<open>The state of the unit tests of \<open>fuzzyRefResolve\<close>: a button \<open>E1\<close> and an input
  \<open>E2\<close>.\<close>

definition fuzzyTestState :: CompactState where
  "fuzzyTestState =
     mkState [] [mkElement ''E1'' ''Submit Form'',
                 (mkElement ''E2'' ''Email Address'')\<lparr>role := RInput\<rparr>]"

text \<open>A browser whose page is its body text: every call succeeds with the selector
  \<open>#sel\<close> and leaves the page as it is, no CAPTCHA frame is present, and no fresh state
  can be collected.\<close>

definition textEnv :: "string env" where
  "textEnv =
     \<lparr>innerText = (\<lambda>w. Some w), captchaIframe = (\<lambda>w. Some False),
      handleCookieBanner = (\<lambda>w. w), dismissModal = (\<lambda>w. w),
      perform = (\<lambda>c w. (Inr ''#sel'', w)), collectState = (\<lambda>w rid. None),
      checkAssertion = (\<lambda>a w. None), currentUrl = (\<lambda>w. ''https://example.com''),
      writeJsonArtifact = (\<lambda>path w. None)\<rparr>"

definition mkStep :: "string \<Rightarrow> string \<Rightarrow> string option \<Rightarrow> Step" where
  "mkStep i opn r =
     \<lparr>step_id = i, op = opn, step_url = None, step_ref = r, step_text = None,
      step_value = None, step_kind = None, timeoutMs = None, schemaRef = None,
      step_out = None, direction = None, amount = None\<rparr>"

section \<open>Properties\<close>

subsection \<open>The patch loop\<close>

lemma patchLoop_stop:
  "\<not> (status v = ''patch'' \<and> k < maxPatchRounds config) \<Longrightarrow>
   patchLoop body config v k hist w =
     \<lparr>outcome = Inr v, patchRound = k, verdicts = hist, world = w\<rparr>"
  by (subst patchLoop.simps) auto

lemma patchLoop_step:
  "status v = ''patch'' \<Longrightarrow> k < maxPatchRounds config \<Longrightarrow>
   body (k + 1) v w = (Inr v', w') \<Longrightarrow>
   patchLoop body config v k hist w = patchLoop body config v' (k + 1) (hist @ [v']) w'"
  by (subst patchLoop.simps) simp

lemma patchLoop_throw:
  "status v = ''patch'' \<Longrightarrow> k < maxPatchRounds config \<Longrightarrow>
   body (k + 1) v w = (Inl e, w') \<Longrightarrow>
   patchLoop body config v k hist w =
     \<lparr>outcome = Inl e, patchRound = k + 1, verdicts = hist, world = w'\<rparr>"
  by (subst patchLoop.simps) simp

lemma patchLoop_invariant:
  "\<exists>new. verdicts (patchLoop body config v k hist w) = hist @ new
     \<and> (\<forall>u \<in> set (butlast (v # new)). status u = ''patch'')
     \<and> k + length new \<le> max k (maxPatchRounds config)
     \<and> (case outcome (patchLoop body config v k hist w) of
          Inr v' \<Rightarrow> v' = last (v # new)
                   \<and> patchRound (patchLoop body config v k hist w) = k + length new
                   \<and> (status v' \<noteq> ''patch'' \<or> maxPatchRounds config \<le> k + length new)
        | Inl e \<Rightarrow> status (last (v # new)) = ''patch''
                   \<and> patchRound (patchLoop body config v k hist w) = k + length new + 1
                   \<and> k + length new < maxPatchRounds config)"
proof (induction body config v k hist w rule: patchLoop.induct)
  case (1 body config v k hist w)
  show ?case
  proof (cases "status v = ''patch'' \<and> k < maxPatchRounds config")
    case False
    then have "patchLoop body config v k hist w =
        \<lparr>outcome = Inr v, patchRound = k, verdicts = hist, world = w\<rparr>"
      by (rule patchLoop_stop)
    with False show ?thesis by (intro exI[of _ "[]"]) auto
  next
    case True
    obtain res w' where b: "body (k + 1) v w = (res, w')" by (cases "body (k + 1) v w")
    show ?thesis
    proof (cases res)
      case (Inl e)
      with True b have "patchLoop body config v k hist w =
          \<lparr>outcome = Inl e, patchRound = k + 1, verdicts = hist, world = w'\<rparr>"
        by (subst patchLoop.simps) simp
      with True show ?thesis by (intro exI[of _ "[]"]) auto
    next
      case (Inr v')
      with True b have eq: "patchLoop body config v k hist w =
          patchLoop body config v' (k + 1) (hist @ [v']) w'"
        by (subst patchLoop.simps) simp
      from "1.IH"[OF True b[symmetric] Inr] obtain new where
        n: "verdicts (patchLoop body config v' (k + 1) (hist @ [v']) w') = (hist @ [v']) @ new"
           "\<forall>u \<in> set (butlast (v' # new)). status u = ''patch''"
           "k + 1 + length new \<le> max (k + 1) (maxPatchRounds config)"
           "(case outcome (patchLoop body config v' (k + 1) (hist @ [v']) w') of
              Inr v'' \<Rightarrow> v'' = last (v' # new)
                   \<and> patchRound (patchLoop body config v' (k + 1) (hist @ [v']) w')
                       = k + 1 + length new
                   \<and> (status v'' \<noteq> ''patch'' \<or> maxPatchRounds config \<le> k + 1 + length new)
            | Inl e \<Rightarrow> status (last (v' # new)) = ''patch''
                   \<and> patchRound (patchLoop body config v' (k + 1) (hist @ [v']) w')
                       = k + 1 + length new + 1
                   \<and> k + 1 + length new < maxPatchRounds config)"
        by blast
      show ?thesis
        unfolding eq
        using n True
        by (intro exI[of _ "v' # new"]) (auto split: sum.splits)
    qed
  qed
qed

text \<open>
  Claim C1. The patch loop runs at most \<open>maxPatchRounds\<close> rounds. For the loop entered
  with the first verdict \<open>v0\<close> and the counter at 0, and \<open>r\<close> what it leaves behind:
  \<^item> the counter never passes the bound;
  \<^item> the counter is the number of rounds started: it equals the number of verdicts the
    rounds produced when the loop ends with a verdict, and is one more when a round threw;
  \<^item> every verdict but the last had status \<open>patch\<close>, so a verdict of any other status
    (\<open>escalate\<close>, \<open>success\<close>) is the last one, whatever the counter and the bound;
  \<^item> when the loop ends with a verdict, it is the last verdict received (\<open>v0\<close> when no
    round ran), unchanged, and either its status is not \<open>patch\<close> or the bound is reached;
  \<^item> from any state, a verdict whose status is not \<open>patch\<close>, or a counter at the bound,
    leaves the loop at once, and otherwise exactly one round runs with the counter
    incremented by one before the test is made again.
\<close>

theorem patch_loop_bounded:
  fixes body :: "nat \<Rightarrow> Verdict \<Rightarrow> 'w \<Rightarrow> (err + Verdict) \<times> 'w"
    and config :: WebRunnerConfig and v0 :: Verdict and w :: 'w
  defines "r \<equiv> runPatchLoop body config v0 w"
  shows "patchRound r \<le> maxPatchRounds config
       \<and> length (verdicts r) \<le> patchRound r \<and> patchRound r \<le> length (verdicts r) + 1
       \<and> (\<forall>u \<in> set (butlast (v0 # verdicts r)). status u = ''patch'')
       \<and> (\<forall>v. outcome r = Inr v \<longrightarrow>
             v = last (v0 # verdicts r) \<and> patchRound r = length (verdicts r)
             \<and> (status v \<noteq> ''patch'' \<or> patchRound r = maxPatchRounds config))
       \<and> (\<forall>v k hist w1. \<not> (status v = ''patch'' \<and> k < maxPatchRounds config) \<longrightarrow>
             patchLoop body config v k hist w1 =
               \<lparr>outcome = Inr v, patchRound = k, verdicts = hist, world = w1\<rparr>)
       \<and> (\<forall>v k hist w1 v' w2. status v = ''patch'' \<and> k < maxPatchRounds config
               \<and> body (k + 1) v w1 = (Inr v', w2) \<longrightarrow>
             patchLoop body config v k hist w1 =
               patchLoop body config v' (k + 1) (hist @ [v']) w2)"
proof -
  from patchLoop_invariant[of body config v0 0 "[]" w] obtain new where
    n0: "verdicts r = [] @ new
     \<and> (\<forall>u \<in> set (butlast (v0 # new)). status u = ''patch'')
     \<and> 0 + length new \<le> max 0 (maxPatchRounds config)
     \<and> (case outcome r of
          Inr v' \<Rightarrow> v' = last (v0 # new)
                   \<and> patchRound r = 0 + length new
                   \<and> (status v' \<noteq> ''patch'' \<or> maxPatchRounds config \<le> 0 + length new)
        | Inl e \<Rightarrow> status (last (v0 # new)) = ''patch''
                   \<and> patchRound r = 0 + length new + 1
                   \<and> 0 + length new < maxPatchRounds config)"
    unfolding r_def runPatchLoop_def by blast
  have n: "verdicts r = new"
       "\<forall>u \<in> set (butlast (v0 # new)). status u = ''patch''"
       "length new \<le> maxPatchRounds config"
       "(case outcome r of
          Inr v' \<Rightarrow> v' = last (v0 # new) \<and> patchRound r = length new
                   \<and> (status v' \<noteq> ''patch'' \<or> maxPatchRounds config \<le> length new)
        | Inl e \<Rightarrow> status (last (v0 # new)) = ''patch'' \<and> patchRound r = length new + 1
                   \<and> length new < maxPatchRounds config)"
    using n0 by (auto split: sum.splits)
  have a: "patchRound r \<le> maxPatchRounds config"
    using n(3,4) by (cases "outcome r") auto
  have b: "length (verdicts r) \<le> patchRound r \<and> patchRound r \<le> length (verdicts r) + 1"
    using n(1,4) by (cases "outcome r") auto
  have c: "\<forall>u \<in> set (butlast (v0 # verdicts r)). status u = ''patch''"
    using n(1,2) by simp
  have d: "\<forall>v. outcome r = Inr v \<longrightarrow>
             v = last (v0 # verdicts r) \<and> patchRound r = length (verdicts r)
             \<and> (status v \<noteq> ''patch'' \<or> patchRound r = maxPatchRounds config)"
    using n(1,3,4) by auto
  have e: "\<forall>v k hist w1. \<not> (status v = ''patch'' \<and> k < maxPatchRounds config) \<longrightarrow>
             patchLoop body config v k hist w1 =
               \<lparr>outcome = Inr v, patchRound = k, verdicts = hist, world = w1\<rparr>"
    by (intro allI impI) (rule patchLoop_stop)
  have f: "\<forall>v k hist w1 v' w2. status v = ''patch'' \<and> k < maxPatchRounds config
               \<and> body (k + 1) v w1 = (Inr v', w2) \<longrightarrow>
             patchLoop body config v k hist w1 =
               patchLoop body config v' (k + 1) (hist @ [v']) w2"
  proof (intro allI impI)
    fix v k hist w1 v' w2
    assume h: "status v = ''patch'' \<and> k < maxPatchRounds config
               \<and> body (k + 1) v w1 = (Inr v', w2)"
    then show "patchLoop body config v k hist w1 =
               patchLoop body config v' (k + 1) (hist @ [v']) w2"
      by (subst patchLoop.simps) simp
  qed
  from a b c d e f show ?thesis by blast
qed

text \<open>
  Two runs of the loop. With a bound of 5 and an oracle that escalates in round 2 the loop
  stops after round 2; with the default bound of 2 and an oracle that keeps answering
  \<open>patch\<close> the loop stops after round 2 and the verdict \<open>patch\<close> stands.
\<close>

theorem patch_loop_bounded_witness:
  "runPatchLoop (escalateAtRound 2) (defaultConfig\<lparr>maxPatchRounds := 5\<rparr>) (mkVerdict ''patch'') ()
     = \<lparr>outcome = Inr (mkVerdict ''escalate''), patchRound = 2,
        verdicts = [mkVerdict ''patch'', mkVerdict ''escalate''], world = ()\<rparr>
   \<and> patchRound (runPatchLoop (escalateAtRound 2) (defaultConfig\<lparr>maxPatchRounds := 5\<rparr>)
         (mkVerdict ''patch'') ()) \<le> maxPatchRounds (defaultConfig\<lparr>maxPatchRounds := 5\<rparr>)
   \<and> runPatchLoop (escalateAtRound 7) defaultConfig (mkVerdict ''patch'') ()
     = \<lparr>outcome = Inr (mkVerdict ''patch''), patchRound = 2,
        verdicts = [mkVerdict ''patch'', mkVerdict ''patch''], world = ()\<rparr>
   \<and> patchRound (runPatchLoop (escalateAtRound 7) defaultConfig (mkVerdict ''patch'') ())
       = maxPatchRounds defaultConfig"
proof -
  have e1: "runPatchLoop (escalateAtRound 2) (defaultConfig\<lparr>maxPatchRounds := 5\<rparr>) (mkVerdict ''patch'') ()
  = \<lparr>outcome = Inr (mkVerdict ''escalate''), patchRound = 2,
      verdicts = [mkVerdict ''patch'', mkVerdict ''escalate''], world = ()\<rparr>"
    by (simp add: runPatchLoop_def patchLoop_step patchLoop_stop escalateAtRound_def
          mkVerdict_def defaultConfig_def)
  have e2: "runPatchLoop (escalateAtRound 7) defaultConfig (mkVerdict ''patch'') ()
  = \<lparr>outcome = Inr (mkVerdict ''patch''), patchRound = 2,
      verdicts = [mkVerdict ''patch'', mkVerdict ''patch''], world = ()\<rparr>"
    by (simp add: runPatchLoop_def patchLoop_step patchLoop_stop escalateAtRound_def
          mkVerdict_def defaultConfig_def)
  have s: "status (mkVerdict ''patch'') = ''patch''" by (simp add: mkVerdict_def)
  from patch_loop_bounded[of "escalateAtRound 2" "defaultConfig\<lparr>maxPatchRounds := 5\<rparr>" "mkVerdict ''patch''" "()"]
  have b1: "patchRound (runPatchLoop (escalateAtRound 2) (defaultConfig\<lparr>maxPatchRounds := 5\<rparr>)
         (mkVerdict ''patch'') ()) \<le> maxPatchRounds (defaultConfig\<lparr>maxPatchRounds := 5\<rparr>)"
    by blast
  from patch_loop_bounded[of "escalateAtRound 7" defaultConfig "mkVerdict ''patch''" "()"]
  have b2: "status (mkVerdict ''patch'') \<noteq> ''patch'' \<or> patchRound (runPatchLoop (escalateAtRound 7) defaultConfig (mkVerdict ''patch'') ())
       = maxPatchRounds defaultConfig"
    unfolding e2 by simp
  with s have b3: "patchRound (runPatchLoop (escalateAtRound 7) defaultConfig (mkVerdict ''patch'') ())
       = maxPatchRounds defaultConfig" by blast
  from e1 b1 e2 b3 show ?thesis by blast
qed


subsection \<open>The selector resolver\<close>

lemma tryLoop_skip:
  "\<forall>x \<in> set pre. liveHandle (page x) = None \<Longrightarrow>
   tryLoop page (pre @ rest) probed = tryLoop page rest (probed @ pre)"
proof (induction pre arbitrary: probed)
  case Nil
  then show ?case by simp
next
  case (Cons x pre)
  from Cons.prems have dead: "liveHandle (page x) = None"
    and rest: "\<forall>y \<in> set pre. liveHandle (page y) = None" by simp_all
  from dead have "tryLoop page (x # pre @ rest) probed = tryLoop page (pre @ rest) (probed @ [x])"
    by (cases "page x" rule: liveHandle.cases) simp_all
  with Cons.IH[OF rest, of "probed @ [x]"] show ?case by simp
qed

lemma tryLoop_hit:
  "liveHandle (page s) = Some h \<Longrightarrow>
   tryLoop page (s # post) probed = (Some (s, h), probed @ [s])"
  by (cases "page s" rule: liveHandle.cases) simp_all

lemma tryLoop_None:
  "tryLoop page xs probed = (None, q) \<Longrightarrow>
   (\<forall>x \<in> set xs. liveHandle (page x) = None) \<and> q = probed @ xs"
proof (induction xs arbitrary: probed)
  case Nil
  then show ?case by simp
next
  case (Cons x xs)
  show ?case
  proof (cases "liveHandle (page x)")
    case None
    then have "tryLoop page (x # xs) probed = tryLoop page xs (probed @ [x])"
      using tryLoop_skip[of "[x]" page xs probed] by simp
    with Cons.prems Cons.IH[of "probed @ [x]"] None show ?thesis by simp
  next
    case (Some h)
    with Cons.prems tryLoop_hit[of page x h xs probed] show ?thesis by simp
  qed
qed

text \<open>
  Claim C4. \<open>trySelectors\<close> queries the locators in the order \<open>[primary, ...fallback]\<close>.
  \<^item> When the list splits into locators that match no live element, then a locator \<open>s\<close>
    that matches one with handle \<open>h\<close>, then the rest, the result is \<open>s\<close> paired with \<open>h\<close>
    (visible or not), and exactly the locators up to and including \<open>s\<close> were queried.
  \<^item> When no locator matches, the result is \<open>ElementMissing\<close> carrying the whole list,
    and every locator of the list was queried.
  \<^item> A failure implies that no locator of the list matches and that all were queried.
\<close>

theorem trySelectors_first_match:
  fixes page :: "string \<Rightarrow> 'h probe"
  shows "(\<forall>pre s post h.
            primary sel # fallback sel = pre @ s # post
            \<and> (\<forall>x \<in> set pre. liveHandle (page x) = None) \<and> liveHandle (page s) = Some h
            \<longrightarrow> trySelectors page sel = (Inr (s, h), pre @ [s]))
       \<and> ((\<forall>x \<in> set (primary sel # fallback sel). liveHandle (page x) = None) \<longrightarrow>
            trySelectors page sel =
              (Inl (ElementMissing
                      (''(via selectors: '' @ join '', '' (primary sel # fallback sel) @ '')'')
                      (Attempts (primary sel # fallback sel))),
               primary sel # fallback sel))
       \<and> (\<forall>e probed. trySelectors page sel = (Inl e, probed) \<longrightarrow>
            (\<forall>x \<in> set (primary sel # fallback sel). liveHandle (page x) = None)
            \<and> probed = primary sel # fallback sel
            \<and> cls e = ClsElementMissing
            \<and> details e = Attempts (primary sel # fallback sel))"
proof (intro conjI allI impI)
  fix pre s post h
  assume a: "primary sel # fallback sel = pre @ s # post
            \<and> (\<forall>x \<in> set pre. liveHandle (page x) = None) \<and> liveHandle (page s) = Some h"
  then have "tryLoop page (primary sel # fallback sel) [] = (Some (s, h), pre @ [s])"
    using tryLoop_skip[of pre page "s # post" "[]"] tryLoop_hit[of page s h post pre] by simp
  then show "trySelectors page sel = (Inr (s, h), pre @ [s])"
    by (simp add: trySelectors_def Let_def del: tryLoop.simps)
next
  assume dead: "\<forall>x \<in> set (primary sel # fallback sel). liveHandle (page x) = None"
  have "tryLoop page (primary sel # fallback sel) [] = (None, primary sel # fallback sel)"
    using tryLoop_skip[OF dead, of "[]" "[]"] by simp
  then show "trySelectors page sel =
              (Inl (ElementMissing
                      (''(via selectors: '' @ join '', '' (primary sel # fallback sel) @ '')'')
                      (Attempts (primary sel # fallback sel))),
               primary sel # fallback sel)"
    by (simp add: trySelectors_def Let_def del: tryLoop.simps)
next
  fix e probed
  assume f: "trySelectors page sel = (Inl e, probed)"
  obtain res q where t: "tryLoop page (primary sel # fallback sel) [] = (res, q)"
    by (cases "tryLoop page (primary sel # fallback sel) []")
  from f t have rn: "res = None"
    by (cases res) (simp_all add: trySelectors_def Let_def del: tryLoop.simps)
  from f t rn have q: "q = probed"
    and e: "e = ElementMissing
                  (''(via selectors: '' @ join '', '' (primary sel # fallback sel) @ '')'')
                  (Attempts (primary sel # fallback sel))"
    by (simp_all add: trySelectors_def Let_def del: tryLoop.simps)
  from tryLoop_None[OF t[unfolded rn]] q
  show "\<forall>x \<in> set (primary sel # fallback sel). liveHandle (page x) = None"
    and "probed = primary sel # fallback sel" by simp_all
  from e show "cls e = ClsElementMissing" and "details e = Attempts (primary sel # fallback sel)"
    by (simp_all add: ElementMissing_def)
qed

text \<open>
  On the sample page, the set \<open>#gone, bad[, h1, a\<close> resolves to \<open>h1\<close>, the first locator
  with a live element (a hidden one), after three queries; the set \<open>#gone, bad[\<close> fails
  and the failure carries both locators.
\<close>

theorem trySelectors_first_match_witness:
  "trySelectors samplePage \<lparr>primary = ''#gone'', fallback = [''bad['', ''h1'', ''a'']\<rparr>
     = (Inr (''h1'', 1), [''#gone'', ''bad['', ''h1''])
   \<and> trySelectors samplePage \<lparr>primary = ''#gone'', fallback = [''bad['']\<rparr>
     = (Inl (ElementMissing ''(via selectors: #gone, bad[)'' (Attempts [''#gone'', ''bad[''])),
        [''#gone'', ''bad[''])"
proof -
  let ?s1 = "\<lparr>primary = ''#gone'', fallback = [''bad['', ''h1'', ''a'']\<rparr>"
  let ?s2 = "\<lparr>primary = ''#gone'', fallback = [''bad['']\<rparr>"
  have h1: "primary ?s1 # fallback ?s1 = [''#gone'', ''bad[''] @ ''h1'' # [''a'']
            \<and> (\<forall>x \<in> set [''#gone'', ''bad['']. liveHandle (samplePage x) = None)
            \<and> liveHandle (samplePage ''h1'') = Some 1"
    by simp
  have h2: "\<forall>x \<in> set (primary ?s2 # fallback ?s2). liveHandle (samplePage x) = None"
    by simp
  from trySelectors_first_match[of ?s1 samplePage] h1
  have a: "trySelectors samplePage ?s1 = (Inr (''h1'', 1), [''#gone'', ''bad['']  @ [''h1''])"
    by blast
  from trySelectors_first_match[of ?s2 samplePage] h2
  have b: "trySelectors samplePage ?s2 =
              (Inl (ElementMissing
                      (''(via selectors: '' @ join '', '' (primary ?s2 # fallback ?s2) @ '')'')
                      (Attempts (primary ?s2 # fallback ?s2))),
               primary ?s2 # fallback ?s2)"
    by blast
  from a b show ?thesis by simp
qed


subsection \<open>The differ\<close>

lemma mapSet_keys: "fst ` set (mapSet m k v) = insert k (fst ` set m)"
  by (induction m k v rule: mapSet.induct) auto

lemma mapSet_distinct: "distinct (map fst m) \<Longrightarrow> distinct (map fst (mapSet m k v))"
proof (induction m k v rule: mapSet.induct)
  case (1 k v)
  then show ?case by simp
next
  case (2 k' v' m k v)
  then show ?case using mapSet_keys[of m k v] by (auto simp: image_iff)
qed

lemma foldl_mapSet_distinct:
  "distinct (map fst m) \<Longrightarrow> distinct (map fst (foldl (\<lambda>m el. mapSet m (ref el) el) m els))"
  by (induction els arbitrary: m) (simp_all add: mapSet_distinct)

lemma indexByRef_distinct: "distinct (map fst (indexByRef els))"
  unfolding indexByRef_def by (rule foldl_mapSet_distinct) simp

lemma changedLoop_same: "changedLoop el el fs bDiff aDiff = (bDiff, aDiff)"
  by (induction fs) simp_all

lemma changedFields_same: "changedFields el el = None"
  by (simp add: changedFields_def changedLoop_same)

lemma currLoop_same:
  "distinct (map fst m) \<Longrightarrow> set entries \<subseteq> set m \<Longrightarrow>
   currLoop m entries addedAcc changedList = (addedAcc, changedList)"
proof (induction entries)
  case Nil
  then show ?case by simp
next
  case (Cons e entries)
  obtain r el where e: "e = (r, el)" by (cases e)
  from Cons.prems e have mo: "map_of m r = Some el" by simp
  have "currLoop m (e # entries) addedAcc changedList = currLoop m entries addedAcc changedList"
    by (simp add: e mapHas_def mapGet_def mo changedFields_same)
  with Cons show ?case by simp
qed

lemma prevLoop_same:
  "set entries \<subseteq> set m \<Longrightarrow> prevLoop m entries removedAcc = removedAcc"
proof (induction entries)
  case Nil
  then show ?case by simp
next
  case (Cons e entries)
  obtain r el where e: "e = (r, el)" by (cases e)
  from Cons.prems e have "(r, el) \<in> set m" by simp
  then have mo: "mapHas m r" unfolding mapHas_def by (metis map_of_eq_None_iff fst_conv image_eqI)
  have "prevLoop m (e # entries) removedAcc = prevLoop m entries removedAcc"
    by (simp add: e mo)
  with Cons show ?case by simp
qed

lemma diffStates_same_interactive:
  "interactive s1 = interactive s2 \<Longrightarrow>
   diffStates s1 s2 = \<lparr>added = [], removed = [], changed = []\<rparr>"
  by (simp add: diffStates_def Let_def currLoop_same prevLoop_same indexByRef_distinct)

text \<open>
  Claim C7. For every state \<open>S\<close>, \<open>diffStates S S\<close> has empty \<open>added\<close>, \<open>removed\<close> and
  \<open>changed\<close> lists. More generally the diff of two snapshots is empty as soon as their
  lists of interactive elements are equal by value, whatever their \<open>meta\<close> (run id, time
  stamp, url, title) and page summary are. References need not be unique for this.
\<close>

theorem diffStates_identical_empty:
  "diffStates S S = \<lparr>added = [], removed = [], changed = []\<rparr>
   \<and> (\<forall>S1 S2. interactive S1 = interactive S2 \<longrightarrow>
         diffStates S1 S2 = \<lparr>added = [], removed = [], changed = []\<rparr>)"
  using diffStates_same_interactive by blast

text \<open>
  Two snapshots taken at different times whose element lists are equal (with a repeated
  reference \<open>E1\<close>) differ as states and have an empty diff.
\<close>

theorem diffStates_identical_empty_witness:
  "interactive (mkState ''t0'' [mkElement ''E1'' ''Submit'', mkElement ''E1'' ''Cancel''])
     = interactive (mkState ''t1'' [mkElement ''E1'' ''Submit'', mkElement ''E1'' ''Cancel''])
   \<and> mkState ''t0'' [mkElement ''E1'' ''Submit'', mkElement ''E1'' ''Cancel'']
     \<noteq> mkState ''t1'' [mkElement ''E1'' ''Submit'', mkElement ''E1'' ''Cancel'']
   \<and> diffStates (mkState ''t0'' [mkElement ''E1'' ''Submit'', mkElement ''E1'' ''Cancel''])
                (mkState ''t1'' [mkElement ''E1'' ''Submit'', mkElement ''E1'' ''Cancel''])
     = \<lparr>added = [], removed = [], changed = []\<rparr>"
proof -
  let ?a = "mkState ''t0'' [mkElement ''E1'' ''Submit'', mkElement ''E1'' ''Cancel'']"
  let ?b = "mkState ''t1'' [mkElement ''E1'' ''Submit'', mkElement ''E1'' ''Cancel'']"
  have h: "interactive ?a = interactive ?b" by (simp add: mkState_def)
  have d: "?a \<noteq> ?b" by (simp add: mkState_def)
  from diffStates_identical_empty[of ?a] h
  have "diffStates ?a ?b = \<lparr>added = [], removed = [], changed = []\<rparr>" by blast
  with h d show ?thesis by blast
qed

text \<open>The differ does report differences: a changed label, an added and a removed
  reference.\<close>

lemma diffStates_detects_label_change:
  "diffStates (mkState ''t0'' [mkElement ''E1'' ''Sign In'', mkElement ''E2'' ''Old''])
              (mkState ''t1'' [mkElement ''E1'' ''Sign Out'', mkElement ''E3'' ''New''])
   = \<lparr>added = [mkElement ''E3'' ''New''], removed = [mkElement ''E2'' ''Old''],
      changed = [\<lparr>ce_ref = ''E1'', before = [(FLabel, VString ''Sign In'')],
                  after = [(FLabel, VString ''Sign Out'')]\<rparr>]\<rparr>"
  by (simp add: diffStates_def Let_def indexByRef_def mkState_def mkElement_def mapHas_def
        mapGet_def changedFields_def TRACKED_FIELDS_def)

subsection \<open>Redaction\<close>

lemma redactSecrets_scalar: "isScalar v \<Longrightarrow> redactSecrets v al ps = v"
  by (cases v) simp_all

lemma redactSecrets_isString: "isString (redactSecrets v al ps) = isString v"
  by (cases v) simp_all

lemma redactSecrets_split:
  "\<exists>outPre outPost.
     redactSecrets (JObj pre) al ps = JObj outPre
     \<and> redactSecrets (JObj post) al ps = JObj outPost
     \<and> redactSecrets (JObj (pre @ (key, val) # post)) al ps =
         JObj (outPre
               @ (if writesOwnProperty key
                  then [(key,
                         if key \<in> set al then val
                         else if isSecretKey key ps \<and> isString val
                           then (case val of JStr str \<Rightarrow> JStr (redactedMarker str) | _ \<Rightarrow> val)
                         else redactSecrets val al ps)]
                  else [])
               @ outPost)"
  by simp

lemma redactSecrets_unchanged:
  "noSecretKeys v ps \<Longrightarrow> redactSecrets v al ps = v"
proof (induction v al ps rule: redactSecrets.induct)
  case (2 items allowlist patterns)
  then show ?case by (simp add: map_idI)
next
  case (3 entries allowlist patterns)
  from "3.prems" have f: "filter (\<lambda>(key, val). writesOwnProperty key) entries = entries"
    by (auto simp: filter_id_conv)
  have "map (\<lambda>(key, val).
                  (key,
                   if key \<in> set allowlist then val
                   else if isSecretKey key patterns \<and> isString val
                     then (case val of JStr str \<Rightarrow> JStr (redactedMarker str) | _ \<Rightarrow> val)
                   else redactSecrets val allowlist patterns)) entries = entries"
  proof (rule map_idI)
    fix e assume e: "e \<in> set entries"
    obtain k v where kv: "e = (k, v)" by (cases e)
    from "3.prems" e kv have ns: "\<not> isSecretKey k patterns" and nv: "noSecretKeys v patterns"
      and wk: "writesOwnProperty k"
      by auto
    from e kv wk have e': "(k, v) \<in> set (filter (\<lambda>(key, val). writesOwnProperty key) entries)"
      by simp
    show "(case e of (key, val) \<Rightarrow>
                  (key,
                   if key \<in> set allowlist then val
                   else if isSecretKey key patterns \<and> isString val
                     then (case val of JStr str \<Rightarrow> JStr (redactedMarker str) | _ \<Rightarrow> val)
                   else redactSecrets val allowlist patterns)) = e"
      using "3.IH"[OF e' refl] ns nv kv by simp
  qed
  with f show ?case by simp
qed simp_all

lemma redactScenario:
  "redactSecrets (JObj [(''email'', JStr ''a@b.com''), (''password'', JStr ''hunter2'')]) []
         SECRET_KEY_PATTERNS
     = JObj [(''email'', JStr ''a@b.com''), (''password'', JStr ''[REDACTED:7]'')]"
  by code_simp

lemma protoNotSecret: "\<not> isSecretKey ''__proto__'' SECRET_KEY_PATTERNS"
  by code_simp


lemma defaultSecretNames:
  "map (\<lambda>k. isSecretKey k SECRET_KEY_PATTERNS)
         [''password'', ''token'', ''secret'', ''apiKey'', ''otp'', ''auth'', ''credential'',
          ''email'']
     = [True, True, True, True, True, True, True, False]"
  by code_simp

text \<open>For a key other than \<open>__proto__\<close>, off the allow-list, that matches a pattern and
  holds a string, the entry becomes the marker with the length of the string.\<close>

lemma redactSecrets_marker:
  "isSecretKey key ps \<Longrightarrow> key \<notin> set al \<Longrightarrow> writesOwnProperty key \<Longrightarrow>
   \<exists>outPre outPost.
     redactSecrets (JObj pre) al ps = JObj outPre
     \<and> redactSecrets (JObj post) al ps = JObj outPost
     \<and> redactSecrets (JObj (pre @ (key, JStr str) # post)) al ps =
         JObj (outPre @ (key, JStr (''[REDACTED:'' @ showNat (length str) @ '']'')) # outPost)"
  using redactSecrets_split[of pre al ps post key "JStr str"]
  by (simp add: redactedMarker_def del: redactSecrets.simps)

text \<open>
  Claim C5, at the input where the code departs from it. The object
  \<open>{"email": "a@b.com", "password": "hunter2", "__proto__": {"note": "x"}}\<close>, as
  \<open>JSON.parse\<close> builds it, has the own key \<open>__proto__\<close>, which matches no secret pattern.
  The claim has non-secret keys left unchanged. In the loop \<open>result["__proto__"] = ...\<close>
  runs the setter inherited from \<open>Object.prototype\<close> and writes no own property, so the
  result's own entries are \<open>email\<close> and the redacted \<open>password\<close> only: the key
  \<open>__proto__\<close> and what is under it are missing from what is written. The entry is lost
  on the allow-list branch too, and at any depth. For every other key the claim's
  contract holds (\<open>redactSecrets_split\<close>, \<open>redactSecrets_marker\<close>,
  \<open>redactSecrets_unchanged\<close>, \<open>redactScenario\<close>).
\<close>

theorem redactSecrets_drops_proto_entry:
  "redactSecrets
     (JObj [(''email'', JStr ''a@b.com''), (''password'', JStr ''hunter2''),
            (''__proto__'', JObj [(''note'', JStr ''x'')])])
     [] SECRET_KEY_PATTERNS
   = JObj [(''email'', JStr ''a@b.com''), (''password'', JStr ''[REDACTED:7]'')]
   \<and> \<not> isSecretKey ''__proto__'' SECRET_KEY_PATTERNS
   \<and> redactSecrets (JObj [(''__proto__'', JStr ''x'')]) [''__proto__''] SECRET_KEY_PATTERNS
     = JObj []
   \<and> redactSecrets
       (JObj [(''plan'', JObj [(''__proto__'', JObj [(''goal'', JStr ''g'')]),
                               (''token'', JStr ''abc123'')])])
       [] SECRET_KEY_PATTERNS
     = JObj [(''plan'', JObj [(''token'', JStr ''[REDACTED:6]'')])]"
  by code_simp

text \<open>
  Claim C10, amended: the claim holds for keys off the allow-list. For an entry whose key
  matches a pattern, is not on the allow-list and is written as an own property, and
  whose value is not a string: the result holds, at the entry's place between the images
  of the entries before and after it, the same key with the recursively redacted value;
  that value is not a string, so it is no marker; and a scalar value (a number, a
  boolean, \<open>null\<close>) is unchanged. For an entry whose key is on the allow-list the result
  holds the value as it is, without recursion. Every key that a default pattern matches
  is written as an own property. In the example the objects and arrays under \<open>auth\<close> and
  \<open>secret\<close> are recursed into and the string secrets under \<open>token\<close> and \<open>apiKey\<close>
  inside them are replaced, the bare string inside the array stays, and the number, the
  boolean and \<open>null\<close> under \<open>token\<close>, \<open>otp\<close> and \<open>password\<close> pass through.
\<close>

theorem redactSecrets_only_strings:
  "(\<forall>pre key val post.
       isSecretKey key ps \<and> key \<notin> set al \<and> writesOwnProperty key \<and> \<not> isString val \<longrightarrow>
         (\<exists>outPre outPost.
            redactSecrets (JObj pre) al ps = JObj outPre
            \<and> redactSecrets (JObj post) al ps = JObj outPost
            \<and> redactSecrets (JObj (pre @ (key, val) # post)) al ps =
                JObj (outPre @ (key, redactSecrets val al ps) # outPost))
         \<and> \<not> isString (redactSecrets val al ps)
         \<and> (isScalar val \<longrightarrow> redactSecrets val al ps = val))
   \<and> (\<forall>pre key val post.
       key \<in> set al \<and> writesOwnProperty key \<longrightarrow>
         (\<exists>outPre outPost.
            redactSecrets (JObj pre) al ps = JObj outPre
            \<and> redactSecrets (JObj post) al ps = JObj outPost
            \<and> redactSecrets (JObj (pre @ (key, val) # post)) al ps =
                JObj (outPre @ (key, val) # outPost)))
   \<and> (\<forall>key. isSecretKey key SECRET_KEY_PATTERNS \<longrightarrow> writesOwnProperty key)
   \<and> redactSecrets
         (JObj [(''auth'', JObj [(''token'', JStr ''abc123'')]),
                (''secret'', JArr [JObj [(''apiKey'', JStr ''key123'')], JStr ''plain'']),
                (''token'', JNum 12345), (''otp'', JBool True), (''password'', JNull)])
         [] SECRET_KEY_PATTERNS
       = JObj [(''auth'', JObj [(''token'', JStr ''[REDACTED:6]'')]),
               (''secret'', JArr [JObj [(''apiKey'', JStr ''[REDACTED:6]'')], JStr ''plain'']),
               (''token'', JNum 12345), (''otp'', JBool True), (''password'', JNull)]"
proof (intro conjI allI impI)
  fix pre key val post
  assume a: "isSecretKey key ps \<and> key \<notin> set al \<and> writesOwnProperty key \<and> \<not> isString val"
  from redactSecrets_split[of pre al ps post key val] a
  show "\<exists>outPre outPost.
            redactSecrets (JObj pre) al ps = JObj outPre
            \<and> redactSecrets (JObj post) al ps = JObj outPost
            \<and> redactSecrets (JObj (pre @ (key, val) # post)) al ps =
                JObj (outPre @ (key, redactSecrets val al ps) # outPost)"
    by (simp del: redactSecrets.simps)
  from a show "\<not> isString (redactSecrets val al ps)"
    by (simp add: redactSecrets_isString)
  show "isScalar val \<Longrightarrow> redactSecrets val al ps = val"
    by (rule redactSecrets_scalar)
next
  fix pre key val post
  assume a: "key \<in> set al \<and> writesOwnProperty key"
  from redactSecrets_split[of pre al ps post key val] a
  show "\<exists>outPre outPost.
            redactSecrets (JObj pre) al ps = JObj outPre
            \<and> redactSecrets (JObj post) al ps = JObj outPost
            \<and> redactSecrets (JObj (pre @ (key, val) # post)) al ps =
                JObj (outPre @ (key, val) # outPost)"
    by (simp del: redactSecrets.simps)
next
  fix key
  assume "isSecretKey key SECRET_KEY_PATTERNS"
  with protoNotSecret show "writesOwnProperty key"
    by (auto simp: writesOwnProperty_def)
next
  show "redactSecrets
         (JObj [(''auth'', JObj [(''token'', JStr ''abc123'')]),
                (''secret'', JArr [JObj [(''apiKey'', JStr ''key123'')], JStr ''plain'']),
                (''token'', JNum 12345), (''otp'', JBool True), (''password'', JNull)])
         [] SECRET_KEY_PATTERNS
       = JObj [(''auth'', JObj [(''token'', JStr ''[REDACTED:6]'')]),
               (''secret'', JArr [JObj [(''apiKey'', JStr ''[REDACTED:6]'')], JStr ''plain'']),
               (''token'', JNum 12345), (''otp'', JBool True), (''password'', JNull)]"
    by code_simp
qed

text \<open>
  With \<open>token\<close> on the allow-list: the object under the secret key \<open>auth\<close> is recursed
  into and its \<open>otp\<close> replaced, at its place after \<open>count\<close>; the object under the
  allow-listed \<open>token\<close> keeps its \<open>password\<close>.
\<close>

theorem redactSecrets_only_strings_witness:
  "isSecretKey ''auth'' SECRET_KEY_PATTERNS \<and> ''auth'' \<notin> set [''token'']
   \<and> writesOwnProperty ''auth'' \<and> \<not> isString (JObj [(''otp'', JStr ''0000'')])
   \<and> ''token'' \<in> set [''token''] \<and> writesOwnProperty ''token''
   \<and> redactSecrets (JObj [(''otp'', JStr ''0000'')]) [''token''] SECRET_KEY_PATTERNS
     = JObj [(''otp'', JStr ''[REDACTED:4]'')]
   \<and> redactSecrets
       (JObj ([(''count'', JNum 1)] @ (''auth'', JObj [(''otp'', JStr ''0000'')])
              # [(''token'', JObj [(''password'', JStr ''pw'')])]))
       [''token''] SECRET_KEY_PATTERNS
     = JObj [(''count'', JNum 1), (''auth'', JObj [(''otp'', JStr ''[REDACTED:4]'')]),
             (''token'', JObj [(''password'', JStr ''pw'')])]"
proof -
  let ?al = "[''token'']"
  let ?val = "JObj [(''otp'', JStr ''0000'')]"
  let ?pre = "[(''count'', JNum 1)]"
  let ?post = "[(''token'', JObj [(''password'', JStr ''pw'')])]"
  have k: "isSecretKey ''auth'' SECRET_KEY_PATTERNS" by code_simp
  have h: "isSecretKey ''auth'' SECRET_KEY_PATTERNS \<and> ''auth'' \<notin> set ?al
           \<and> writesOwnProperty ''auth'' \<and> \<not> isString ?val"
    using k by (simp add: writesOwnProperty_def)
  have t: "''token'' \<in> set ?al \<and> writesOwnProperty ''token''"
    by (simp add: writesOwnProperty_def)
  from redactSecrets_only_strings[of SECRET_KEY_PATTERNS ?al] h
  obtain outPre outPost where
    o: "redactSecrets (JObj ?pre) ?al SECRET_KEY_PATTERNS = JObj outPre"
       "redactSecrets (JObj ?post) ?al SECRET_KEY_PATTERNS = JObj outPost"
       "redactSecrets (JObj (?pre @ (''auth'', ?val) # ?post)) ?al SECRET_KEY_PATTERNS =
          JObj (outPre @ (''auth'', redactSecrets ?val ?al SECRET_KEY_PATTERNS) # outPost)"
    by blast
  have p1: "redactSecrets (JObj ?pre) ?al SECRET_KEY_PATTERNS = JObj [(''count'', JNum 1)]"
    by code_simp
  have p2: "redactSecrets (JObj ?post) ?al SECRET_KEY_PATTERNS
              = JObj [(''token'', JObj [(''password'', JStr ''pw'')])]"
    by code_simp
  have v: "redactSecrets ?val ?al SECRET_KEY_PATTERNS = JObj [(''otp'', JStr ''[REDACTED:4]'')]"
    by code_simp
  from o(1) p1 have a1: "outPre = [(''count'', JNum 1)]" by simp
  from o(2) p2 have a2: "outPost = [(''token'', JObj [(''password'', JStr ''pw'')])]" by simp
  from o(3) a1 a2 v have r: "redactSecrets (JObj (?pre @ (''auth'', ?val) # ?post)) ?al
         SECRET_KEY_PATTERNS
     = JObj [(''count'', JNum 1), (''auth'', JObj [(''otp'', JStr ''[REDACTED:4]'')]),
             (''token'', JObj [(''password'', JStr ''pw'')])]"
    by simp
  from h t v r show ?thesis by blast
qed

text \<open>
  Claim C10 as stated fails for a key on the allow-list: with \<open>auth\<close> allow-listed, the
  object under the secret-named key \<open>auth\<close> is not recursed into and the string under
  its \<open>token\<close> stays, while the same object redacted on its own loses it.
\<close>

theorem redactSecrets_allowlisted_not_recursed:
  "isSecretKey ''auth'' SECRET_KEY_PATTERNS
   \<and> \<not> isString (JObj [(''token'', JStr ''abc123'')])
   \<and> redactSecrets (JObj [(''auth'', JObj [(''token'', JStr ''abc123'')])]) [''auth'']
        SECRET_KEY_PATTERNS
      = JObj [(''auth'', JObj [(''token'', JStr ''abc123'')])]
   \<and> redactSecrets (JObj [(''token'', JStr ''abc123'')]) [''auth''] SECRET_KEY_PATTERNS
      = JObj [(''token'', JStr ''[REDACTED:6]'')]
   \<and> redactSecrets (JObj [(''auth'', JObj [(''token'', JStr ''abc123'')])]) [''auth'']
        SECRET_KEY_PATTERNS
      \<noteq> JObj [(''auth'',
                redactSecrets (JObj [(''token'', JStr ''abc123'')]) [''auth'']
                  SECRET_KEY_PATTERNS)]"
  by code_simp


subsection \<open>Reference resolution\<close>

lemma fuzzyRefResolve_no_hint: "fuzzyRefResolve r st None = None"
  by (simp add: fuzzyRefResolve_def)

lemma resolveRef_absent:
  "\<forall>el \<in> set (interactive st). ref el \<noteq> r \<Longrightarrow>
   resolveRef (Some r) st = Inl (ElementMissing (if r = [] then ''(undefined ref)'' else r) NoDetails)"
proof -
  assume a: "\<forall>el \<in> set (interactive st). ref el \<noteq> r"
  then have "find (\<lambda>e. ref e = r) (interactive st) = None"
    by (simp add: find_None_iff)
  then show ?thesis by (simp add: resolveRef_def fuzzyRefResolve_no_hint)
qed

lemma resolveRef_Inr:
  "resolveRef ro st = Inr el \<Longrightarrow> ro = Some (ref el) \<and> el \<in> set (interactive st) \<and> ref el \<noteq> []"
  by (auto simp: resolveRef_def fuzzyRefResolve_no_hint find_Some_iff
           split: option.splits if_splits)

lemma resolveRef_Inl:
  "resolveRef ro st = Inl e \<Longrightarrow>
   cls e = ClsElementMissing \<and> recoverable e \<and> instanceofWebRunnerError e
   \<and> (\<exists>t. message e = ''Element ref '' @ t @ '' not found in DOM'')"
  by (auto simp: resolveRef_def fuzzyRefResolve_no_hint ElementMissing_def
                 instanceofWebRunnerError_def
           split: option.splits if_splits)

text \<open>
  Claim C3. \<open>resolveRef\<close> calls \<open>fuzzyRefResolve\<close> with two arguments, so the hint is
  \<open>undefined\<close>, and without a hint \<open>fuzzyRefResolve\<close> returns no element, whatever the
  reference and the snapshot. Hence a reference that no element of the snapshot has
  fails with \<open>ElementMissing\<close> (for that reference; for \<open>(undefined ref)\<close> when the
  reference is absent or empty); whenever \<open>resolveRef\<close> succeeds the element is in the
  snapshot under exactly the reference asked for; and every failure of \<open>resolveRef\<close> is
  an \<open>ElementMissing\<close>.
\<close>

theorem resolveRef_fuzzy_inert:
  "fuzzyRefResolve r st None = None
   \<and> ((\<forall>el \<in> set (interactive st). ref el \<noteq> r) \<longrightarrow>
        resolveRef (Some r) st =
          Inl (ElementMissing (if r = [] then ''(undefined ref)'' else r) NoDetails))
   \<and> resolveRef None st = Inl (ElementMissing ''(undefined ref)'' NoDetails)
   \<and> (\<forall>ro el. resolveRef ro st = Inr el \<longrightarrow> ro = Some (ref el) \<and> el \<in> set (interactive st))
   \<and> (\<forall>ro e. resolveRef ro st = Inl e \<longrightarrow> cls e = ClsElementMissing \<and> recoverable e)"
proof (intro conjI allI impI)
  show "fuzzyRefResolve r st None = None" by (rule fuzzyRefResolve_no_hint)
next
  assume "\<forall>el \<in> set (interactive st). ref el \<noteq> r"
  then show "resolveRef (Some r) st =
          Inl (ElementMissing (if r = [] then ''(undefined ref)'' else r) NoDetails)"
    by (rule resolveRef_absent)
next
  show "resolveRef None st = Inl (ElementMissing ''(undefined ref)'' NoDetails)"
    by (simp add: resolveRef_def)
next
  fix ro el assume "resolveRef ro st = Inr el"
  then show "ro = Some (ref el)" and "el \<in> set (interactive st)"
    using resolveRef_Inr by blast+
next
  fix ro e assume "resolveRef ro st = Inl e"
  then show "cls e = ClsElementMissing" and "recoverable e"
    using resolveRef_Inl by blast+
qed

text \<open>
  In the state of the unit tests \<open>E99\<close> is missing: \<open>resolveRef\<close> fails, while
  \<open>fuzzyRefResolve\<close> given the hint of the unit test finds \<open>E2\<close>, and \<open>resolveRef\<close>
  finds \<open>E2\<close> under its own reference.
\<close>

theorem resolveRef_fuzzy_inert_witness:
  "resolveRef (Some ''E99'') fuzzyTestState = Inl (ElementMissing ''E99'' NoDetails)
   \<and> message (ElementMissing ''E99'' NoDetails) = ''Element ref E99 not found in DOM''
   \<and> map ref (interactive fuzzyTestState) = [''E1'', ''E2'']
   \<and> fuzzyRefResolve ''E99'' fuzzyTestState
        (Some \<lparr>hint_label = Some ''Email'', hint_role = Some ''input''\<rparr>)
      = Some ((mkElement ''E2'' ''Email Address'')\<lparr>role := RInput\<rparr>)
   \<and> resolveRef (Some ''E2'') fuzzyTestState
      = Inr ((mkElement ''E2'' ''Email Address'')\<lparr>role := RInput\<rparr>)"
proof -
  have r: "map ref (interactive fuzzyTestState) = [''E1'', ''E2'']"
    by (simp add: fuzzyTestState_def mkState_def mkElement_def)
  have h: "\<forall>el \<in> set (interactive fuzzyTestState). ref el \<noteq> ''E99''"
    by (simp add: fuzzyTestState_def mkState_def mkElement_def)
  from resolveRef_fuzzy_inert[of "''E99''" fuzzyTestState] h
  have a: "resolveRef (Some ''E99'') fuzzyTestState =
          Inl (ElementMissing (if ''E99'' = [] then ''(undefined ref)'' else ''E99'') NoDetails)"
    by blast
  have m: "message (ElementMissing ''E99'' NoDetails) = ''Element ref E99 not found in DOM''"
    by (simp add: ElementMissing_def)
  have f: "fuzzyRefResolve ''E99'' fuzzyTestState
        (Some \<lparr>hint_label = Some ''Email'', hint_role = Some ''input''\<rparr>)
      = Some ((mkElement ''E2'' ''Email Address'')\<lparr>role := RInput\<rparr>)"
    by code_simp
  have e: "resolveRef (Some ''E2'') fuzzyTestState
      = Inr ((mkElement ''E2'' ''Email Address'')\<lparr>role := RInput\<rparr>)"
    by (simp add: resolveRef_def fuzzyTestState_def mkState_def mkElement_def)
  from a m r f e show ?thesis by simp
qed


subsection \<open>The step executor\<close>

lemma callBrowser_trace:
  "callBrowser env c keep (w, tr) = (res, (w', tr')) \<Longrightarrow> tr' = tr @ [EvBrowser c]"
  by (auto simp: callBrowser_def split: prod.splits sum.splits)

lemma executeStep_trace:
  "executeStep env step cs (w, tr) = (res, (w', tr')) \<Longrightarrow>
   (tr' = tr \<and> w' = w) \<or> (\<exists>c. tr' = tr @ [EvBrowser c])"
  unfolding executeStep_def
  by (auto split: if_splits sum.splits dest: callBrowser_trace)

lemma executeStep_unknown_op:
  "op step \<notin> set stepOps \<Longrightarrow> executeStep env step cs sess = (Inr None, sess)"
  by (simp add: executeStep_def stepOps_def)

lemma executeStep_click_missing:
  "op step = ''click'' \<Longrightarrow> resolveRef (step_ref step) cs = Inl e \<Longrightarrow>
   executeStep env step cs sess = (Inl e, sess)"
  by (simp add: executeStep_def)

lemma tryStep_captcha:
  "detectCaptcha env w \<Longrightarrow>
   tryStep env step cs (w, tr) = (Inl CaptchaDetected, (w, tr @ [EvDetectCaptcha True]))"
  by (simp add: tryStep_def)

lemma tryStep_twoFA:
  "\<not> detectCaptcha env w \<Longrightarrow> detect2FA env w \<Longrightarrow>
   tryStep env step cs (w, tr) =
     (Inl TwoFADetected, (w, tr @ [EvDetectCaptcha False, EvDetect2FA True]))"
  by (simp add: tryStep_def)

lemma tryStep_quiet:
  "\<not> detectCaptcha env w \<Longrightarrow> \<not> detect2FA env w \<Longrightarrow>
   tryStep env step cs (w, tr) =
     executeStep env step cs (w, tr @ [EvDetectCaptcha False, EvDetect2FA False])"
  by (simp add: tryStep_def)

text \<open>The events of one \<open>try\<close> block.\<close>

lemma tryStep_trace:
  "tryStep env step cs (w, tr) = (res, (w', tr')) \<Longrightarrow>
     (tr' = tr @ [EvDetectCaptcha True] \<and> res = Inl CaptchaDetected \<and> w' = w)
   \<or> (tr' = tr @ [EvDetectCaptcha False, EvDetect2FA True] \<and> res = Inl TwoFADetected \<and> w' = w)
   \<or> (tr' = tr @ [EvDetectCaptcha False, EvDetect2FA False])
   \<or> (\<exists>c. tr' = tr @ [EvDetectCaptcha False, EvDetect2FA False, EvBrowser c])"
proof (cases "detectCaptcha env w")
  case True
  assume "tryStep env step cs (w, tr) = (res, (w', tr'))"
  with True show ?thesis by (simp add: tryStep_captcha)
next
  case False
  assume a: "tryStep env step cs (w, tr) = (res, (w', tr'))"
  show ?thesis
  proof (cases "detect2FA env w")
    case True
    with False a show ?thesis by (simp add: tryStep_twoFA)
  next
    case f2: False
    with False a have
      "executeStep env step cs (w, tr @ [EvDetectCaptcha False, EvDetect2FA False]) = (res, (w', tr'))"
      by (simp add: tryStep_quiet)
    from executeStep_trace[OF this] show ?thesis by auto
  qed
qed

lemma afterFailure_trace:
  "afterFailure env e (w, tr) = (w', tr') \<Longrightarrow>
   tr' = tr \<or> (tr' = tr @ [EvCookieBanner, EvDismissModal] \<and> cls e = ClsElementMissing)"
  by (auto simp: afterFailure_def Let_def split: if_splits)

lemma afterFailure_escalation:
  "cls e = ClsCaptchaDetected \<or> cls e = ClsTwoFADetected \<Longrightarrow> afterFailure env e sess = sess"
  by (auto simp: afterFailure_def)

lemma afterFailure_ElementMissing:
  "cls e = ClsElementMissing \<Longrightarrow> recoverable e \<Longrightarrow>
   afterFailure env e (w, tr) =
     (dismissModal env (handleCookieBanner env w), tr @ [EvCookieBanner, EvDismissModal])"
  by (simp add: afterFailure_def)


lemma stepLoop_failure:
  "tryStep env step cs sess = (Inl e, sess') \<Longrightarrow>
   stepLoop env (step # rest) cs results sess =
     (results @ [failedResult step e], cs, afterFailure env e sess')"
  by simp

lemma stepLoop_success:
  "tryStep env step cs sess = (Inr sel, (w, tr)) \<Longrightarrow>
   stepLoop env (step # rest) cs results sess =
     stepLoop env rest
       (case collectState env w (runId (meta cs)) of None \<Rightarrow> cs | Some fresh \<Rightarrow> fresh)
       (results @ [successResult step sel]) (w, tr @ [EvCollectState])"
  by simp

lemma stepLoop_invariant:
  "stepLoop env stps cs results (w, tr) = (results', cs', (w', tr')) \<Longrightarrow>
   \<exists>newr new. results' = results @ newr \<and> tr' = tr @ new \<and> guarded new
     \<and> (\<forall>sr \<in> set newr. sr_status sr = Success \<or> sr_status sr = Failed)
     \<and> length (filter isCaptchaCheck new) = length newr
     \<and> length newr \<le> length stps
     \<and> (\<forall>sr \<in> set (butlast newr). sr_status sr = Success)"
proof (induction stps arbitrary: cs results w tr)
  case Nil
  then show ?case by (intro exI[of _ "[]"]) simp
next
  case (Cons step rest)
  obtain res w1 tr1 where t: "tryStep env step cs (w, tr) = (res, (w1, tr1))"
    by (metis prod.exhaust)
  note shapes = tryStep_trace[OF t]
  show ?case
  proof (cases res)
    case (Inl e)
    obtain w2 tr2 where af: "afterFailure env e (w1, tr1) = (w2, tr2)"
      by (metis prod.exhaust)
    from Cons.prems t Inl af have r: "results' = results @ [failedResult step e]"
      and tr': "tr' = tr2"
      by (simp_all del: stepLoop.simps add: stepLoop_failure)
    from shapes obtain seg where seg: "tr1 = tr @ seg" "guarded seg"
      "guarded (seg @ [EvCookieBanner, EvDismissModal])"
      "length (filter isCaptchaCheck seg) = 1"
      by (elim disjE exE conjE) simp_all
    from afterFailure_trace[OF af] have "tr2 = tr1 \<or> tr2 = tr1 @ [EvCookieBanner, EvDismissModal]"
      by blast
    then obtain new where new: "tr2 = tr @ new" "guarded new"
      "length (filter isCaptchaCheck new) = 1"
      using seg by (elim disjE) simp_all
    show ?thesis
      using r tr' new
      by (intro exI[of _ "[failedResult step e]"] exI[of _ new]) (simp add: failedResult_def)
  next
    case (Inr sel)
    let ?cs = "case collectState env w1 (runId (meta cs)) of None \<Rightarrow> cs | Some fresh \<Rightarrow> fresh"
    from Cons.prems t Inr have
      "stepLoop env rest ?cs (results @ [successResult step sel]) (w1, tr1 @ [EvCollectState])
         = (results', cs', (w', tr'))"
      by (simp del: stepLoop.simps add: stepLoop_success)
    from Cons.IH[OF this] obtain newr new where
      ih: "results' = (results @ [successResult step sel]) @ newr"
          "tr' = (tr1 @ [EvCollectState]) @ new" "guarded new"
          "\<forall>sr \<in> set newr. sr_status sr = Success \<or> sr_status sr = Failed"
          "length (filter isCaptchaCheck new) = length newr"
          "length newr \<le> length rest"
          "\<forall>sr \<in> set (butlast newr). sr_status sr = Success"
      by blast
    from shapes Inr obtain seg where seg: "tr1 = tr @ seg"
      "guarded (seg @ EvCollectState # new)"
      "length (filter isCaptchaCheck seg) = 1"
      using ih(3) by (elim disjE exE conjE) simp_all
    show ?thesis
      using ih seg
      by (intro exI[of _ "successResult step sel # newr"] exI[of _ "seg @ EvCollectState # new"])
         (auto simp: successResult_def)
  qed
qed


lemma executePlan_steps:
  "executePlan env plan cs path (w0, tr0) = (Inr log, sess') \<Longrightarrow>
   rl_steps log =
     fst (stepLoop env (steps plan) cs []
            (dismissModal env (handleCookieBanner env w0), tr0 @ [EvCookieBanner, EvDismissModal]))"
  by (auto simp: executePlan_def Let_def split: prod.splits option.splits if_splits)

text \<open>
  Claim C2. Let the loop of \<open>executePlan\<close> reach a \<open>click\<close> step whose reference is
  absent from the current snapshot (no element has it, or the step has none), on a page
  where neither detector fires, with any results and any trace accumulated so far. Then
  the loop ends with exactly one more result, \<open>failed\<close> with the message of
  \<open>ElementMissing\<close> for that reference; no step of the rest of the plan is attempted,
  whatever the rest is; no browser action is dispatched; and after the two detector
  checks the only calls are one cookie-banner dismissal followed by one modal dismissal.
  When the step is the first of the plan, the run log of \<open>executePlan\<close> holds that one
  result.
\<close>

theorem click_missing_ref_halts:
  assumes "op step = ''click''"
    and "\<not> detectCaptcha env w" and "\<not> detect2FA env w"
    and "\<forall>r. step_ref step = Some r \<longrightarrow> (\<forall>el \<in> set (interactive cs). ref el \<noteq> r)"
  shows "stepLoop env (step # rest) cs results (w, tr) =
      (results @
         [\<lparr>sr_id = step_id step, sr_op = ''click'', sr_status = Failed, selectorUsed = None,
           sr_error = Some (''Element ref ''
              @ (case step_ref step of
                   None \<Rightarrow> ''(undefined ref)''
                 | Some r \<Rightarrow> if r = [] then ''(undefined ref)'' else r)
              @ '' not found in DOM'')\<rparr>],
       cs,
       (dismissModal env (handleCookieBanner env w),
        tr @ [EvDetectCaptcha False, EvDetect2FA False, EvCookieBanner, EvDismissModal]))
    \<and> (\<forall>plan path w0 tr0 log sess'.
          steps plan = step # rest \<and> dismissModal env (handleCookieBanner env w0) = w
          \<and> executePlan env plan cs path (w0, tr0) = (Inr log, sess') \<longrightarrow>
          rl_steps log =
            [\<lparr>sr_id = step_id step, sr_op = ''click'', sr_status = Failed, selectorUsed = None,
              sr_error = Some (''Element ref ''
                 @ (case step_ref step of
                      None \<Rightarrow> ''(undefined ref)''
                    | Some r \<Rightarrow> if r = [] then ''(undefined ref)'' else r)
                 @ '' not found in DOM'')\<rparr>])"
proof -
  let ?t = "case step_ref step of
              None \<Rightarrow> ''(undefined ref)''
            | Some r \<Rightarrow> if r = [] then ''(undefined ref)'' else r"
  let ?e = "ElementMissing ?t NoDetails"
  have rr: "resolveRef (step_ref step) cs = Inl ?e"
  proof (cases "step_ref step")
    case None
    then show ?thesis by (simp add: resolveRef_def)
  next
    case (Some r)
    with assms(4) have "\<forall>el \<in> set (interactive cs). ref el \<noteq> r" by blast
    from resolveRef_absent[OF this] Some show ?thesis by simp
  qed
  have fr: "failedResult step ?e =
         \<lparr>sr_id = step_id step, sr_op = ''click'', sr_status = Failed, selectorUsed = None,
           sr_error = Some (''Element ref '' @ ?t @ '' not found in DOM'')\<rparr>"
    using assms(1) by (simp add: failedResult_def ElementMissing_def)
  have main: "\<And>results tr. stepLoop env (step # rest) cs results (w, tr) =
      (results @
         [\<lparr>sr_id = step_id step, sr_op = ''click'', sr_status = Failed, selectorUsed = None,
           sr_error = Some (''Element ref '' @ ?t @ '' not found in DOM'')\<rparr>],
       cs,
       (dismissModal env (handleCookieBanner env w),
        tr @ [EvDetectCaptcha False, EvDetect2FA False, EvCookieBanner, EvDismissModal]))"
  proof -
    fix results tr
    have ts: "tryStep env step cs (w, tr) =
              (Inl ?e, (w, tr @ [EvDetectCaptcha False, EvDetect2FA False]))"
      using assms(1,2,3) rr by (simp add: tryStep_quiet executeStep_click_missing)
    have af: "afterFailure env ?e (w, tr @ [EvDetectCaptcha False, EvDetect2FA False]) =
              (dismissModal env (handleCookieBanner env w),
               tr @ [EvDetectCaptcha False, EvDetect2FA False, EvCookieBanner, EvDismissModal])"
      by (simp add: afterFailure_ElementMissing ElementMissing_def)
    show "stepLoop env (step # rest) cs results (w, tr) =
      (results @
         [\<lparr>sr_id = step_id step, sr_op = ''click'', sr_status = Failed, selectorUsed = None,
           sr_error = Some (''Element ref '' @ ?t @ '' not found in DOM'')\<rparr>],
       cs,
       (dismissModal env (handleCookieBanner env w),
        tr @ [EvDetectCaptcha False, EvDetect2FA False, EvCookieBanner, EvDismissModal]))"
      unfolding stepLoop_failure[OF ts] af fr by simp
  qed
  have plan: "\<forall>plan path w0 tr0 log sess'.
          steps plan = step # rest \<and> dismissModal env (handleCookieBanner env w0) = w
          \<and> executePlan env plan cs path (w0, tr0) = (Inr log, sess') \<longrightarrow>
          rl_steps log =
            [\<lparr>sr_id = step_id step, sr_op = ''click'', sr_status = Failed, selectorUsed = None,
              sr_error = Some (''Element ref '' @ ?t @ '' not found in DOM'')\<rparr>]"
  proof (intro allI impI)
    fix plan path w0 tr0 log sess'
    assume a: "steps plan = step # rest \<and> dismissModal env (handleCookieBanner env w0) = w
          \<and> executePlan env plan cs path (w0, tr0) = (Inr log, sess')"
    then have "rl_steps log =
     fst (stepLoop env (step # rest) cs [] (w, tr0 @ [EvCookieBanner, EvDismissModal]))"
      using executePlan_steps[of env plan cs path w0 tr0 log sess'] by simp
    then show "rl_steps log =
            [\<lparr>sr_id = step_id step, sr_op = ''click'', sr_status = Failed, selectorUsed = None,
              sr_error = Some (''Element ref '' @ ?t @ '' not found in DOM'')\<rparr>]"
      unfolding main by simp
  qed
  from main[of results tr] plan show ?thesis by blast
qed


lemma quietPage:
  "\<not> detectCaptcha textEnv ''Example Domain'' \<and> \<not> detect2FA textEnv ''Example Domain''"
  by code_simp

text \<open>
  On the page \<open>Example Domain\<close> with the snapshot \<open>E1, E2\<close>, the plan \<open>click E99, click
  E1\<close> yields one failed result for \<open>S1\<close>; \<open>S2\<close> is never attempted and no browser action
  is on the trace.
\<close>

theorem click_missing_ref_halts_witness:
  "op (mkStep ''S1'' ''click'' (Some ''E99'')) = ''click''
   \<and> \<not> detectCaptcha textEnv ''Example Domain'' \<and> \<not> detect2FA textEnv ''Example Domain''
   \<and> map ref (interactive fuzzyTestState) = [''E1'', ''E2'']
   \<and> stepLoop textEnv
        [mkStep ''S1'' ''click'' (Some ''E99''), mkStep ''S2'' ''click'' (Some ''E1'')]
        fuzzyTestState [] (''Example Domain'', [])
      = ([\<lparr>sr_id = ''S1'', sr_op = ''click'', sr_status = Failed, selectorUsed = None,
            sr_error = Some ''Element ref E99 not found in DOM''\<rparr>],
         fuzzyTestState,
         (''Example Domain'',
          [EvDetectCaptcha False, EvDetect2FA False, EvCookieBanner, EvDismissModal]))"
proof -
  let ?s = "mkStep ''S1'' ''click'' (Some ''E99'')"
  have o: "op ?s = ''click''" by (simp add: mkStep_def)
  have r: "map ref (interactive fuzzyTestState) = [''E1'', ''E2'']"
    by (simp add: fuzzyTestState_def mkState_def mkElement_def)
  have h: "\<forall>r. step_ref ?s = Some r \<longrightarrow> (\<forall>el \<in> set (interactive fuzzyTestState). ref el \<noteq> r)"
    by (simp add: mkStep_def fuzzyTestState_def mkState_def mkElement_def)
  have q1: "\<not> detectCaptcha textEnv ''Example Domain''" using quietPage by blast
  have q2: "\<not> detect2FA textEnv ''Example Domain''" using quietPage by blast
  from click_missing_ref_halts[OF o q1 q2 h, of "[mkStep ''S2'' ''click'' (Some ''E1'')]" "[]" "[]"]
  have "stepLoop textEnv [?s, mkStep ''S2'' ''click'' (Some ''E1'')]
        fuzzyTestState [] (''Example Domain'', [])
      = ([\<lparr>sr_id = ''S1'', sr_op = ''click'', sr_status = Failed, selectorUsed = None,
            sr_error = Some ''Element ref E99 not found in DOM''\<rparr>],
         fuzzyTestState,
         (''Example Domain'',
          [EvDetectCaptcha False, EvDetect2FA False, EvCookieBanner, EvDismissModal]))"
    by (simp add: mkStep_def textEnv_def)
  with o q1 q2 r show ?thesis by blast
qed


text \<open>
  Claim C6. At the head of every iteration of the loop the CAPTCHA detector is evaluated,
  and the 2FA detector when the first is silent.
  \<^item> When the CAPTCHA detector fires, or it is silent and the 2FA detector fires, the loop
    ends there: one result is appended, \<open>failed\<close> with the message of \<open>CaptchaDetected\<close>
    or \<open>TwoFADetected\<close>; the trace grows by the detector checks only, so the step is not
    dispatched, no recovery is attempted and the page is untouched; the rest of the plan
    is not attempted, whatever it is.
  \<^item> Both errors are escalation-class (\<open>isEscalatable\<close>) and not recoverable.
  \<^item> In every run of the loop the new part of the trace is guarded (each browser call
    comes right after a CAPTCHA check and a 2FA check that answered \<open>false\<close>) and holds
    exactly one CAPTCHA check per step processed.
\<close>

theorem detectors_guard_every_step:
  "(detectCaptcha env w \<longrightarrow>
      stepLoop env (step # rest) cs results (w, tr) =
        (results @
           [\<lparr>sr_id = step_id step, sr_op = op step, sr_status = Failed, selectorUsed = None,
             sr_error = Some ''CAPTCHA detected, human intervention required''\<rparr>],
         cs, (w, tr @ [EvDetectCaptcha True])))
   \<and> (\<not> detectCaptcha env w \<and> detect2FA env w \<longrightarrow>
      stepLoop env (step # rest) cs results (w, tr) =
        (results @
           [\<lparr>sr_id = step_id step, sr_op = op step, sr_status = Failed, selectorUsed = None,
             sr_error = Some ''2FA prompt detected, human intervention required''\<rparr>],
         cs, (w, tr @ [EvDetectCaptcha False, EvDetect2FA True])))
   \<and> isEscalatable CaptchaDetected \<and> isEscalatable TwoFADetected
   \<and> \<not> recoverable CaptchaDetected \<and> \<not> recoverable TwoFADetected
   \<and> (\<forall>stps cs0 results0 w0 tr0 results' cs' w' tr'.
        stepLoop env stps cs0 results0 (w0, tr0) = (results', cs', (w', tr')) \<longrightarrow>
        (\<exists>new. tr' = tr0 @ new \<and> guarded new
           \<and> length (filter isCaptchaCheck new) = length results' - length results0))"
proof (intro conjI allI impI)
  assume c: "detectCaptcha env w"
  have "afterFailure env CaptchaDetected (w, tr @ [EvDetectCaptcha True])
          = (w, tr @ [EvDetectCaptcha True])"
    by (rule afterFailure_escalation) (simp add: CaptchaDetected_def)
  then show "stepLoop env (step # rest) cs results (w, tr) =
        (results @
           [\<lparr>sr_id = step_id step, sr_op = op step, sr_status = Failed, selectorUsed = None,
             sr_error = Some ''CAPTCHA detected, human intervention required''\<rparr>],
         cs, (w, tr @ [EvDetectCaptcha True]))"
    unfolding stepLoop_failure[OF tryStep_captcha[OF c]]
    by (simp add: failedResult_def CaptchaDetected_def)
next
  assume a: "\<not> detectCaptcha env w \<and> detect2FA env w"
  then have c: "\<not> detectCaptcha env w" and t: "detect2FA env w" by simp_all
  have "afterFailure env TwoFADetected (w, tr @ [EvDetectCaptcha False, EvDetect2FA True])
          = (w, tr @ [EvDetectCaptcha False, EvDetect2FA True])"
    by (rule afterFailure_escalation) (simp add: TwoFADetected_def)
  then show "stepLoop env (step # rest) cs results (w, tr) =
        (results @
           [\<lparr>sr_id = step_id step, sr_op = op step, sr_status = Failed, selectorUsed = None,
             sr_error = Some ''2FA prompt detected, human intervention required''\<rparr>],
         cs, (w, tr @ [EvDetectCaptcha False, EvDetect2FA True]))"
    unfolding stepLoop_failure[OF tryStep_twoFA[OF c t]]
    by (simp add: failedResult_def TwoFADetected_def)
next
  show "isEscalatable CaptchaDetected"
    by (simp add: isEscalatable_def instanceofWebRunnerError_def CaptchaDetected_def)
  show "isEscalatable TwoFADetected"
    by (simp add: isEscalatable_def instanceofWebRunnerError_def TwoFADetected_def)
  show "\<not> recoverable CaptchaDetected" by (simp add: CaptchaDetected_def)
  show "\<not> recoverable TwoFADetected" by (simp add: TwoFADetected_def)
next
  fix stps cs0 results0 w0 tr0 results' cs' w' tr'
  assume "stepLoop env stps cs0 results0 (w0, tr0) = (results', cs', (w', tr'))"
  from stepLoop_invariant[OF this]
  show "\<exists>new. tr' = tr0 @ new \<and> guarded new
           \<and> length (filter isCaptchaCheck new) = length results' - length results0"
    by auto
qed


lemma challengePages:
  "detectCaptcha textEnv ''Please complete the CAPTCHA''
   \<and> \<not> detectCaptcha textEnv ''Enter your Verification Code''
   \<and> detect2FA textEnv ''Enter your Verification Code''"
  by code_simp

lemma quietRun:
  "stepLoop textEnv [mkStep ''S1'' ''click'' (Some ''E1'')] fuzzyTestState []
        (''Example Domain'', [])
      = ([\<lparr>sr_id = ''S1'', sr_op = ''click'', sr_status = Success, selectorUsed = Some ''#sel'',
            sr_error = None\<rparr>],
         fuzzyTestState,
         (''Example Domain'',
          [EvDetectCaptcha False, EvDetect2FA False,
           EvBrowser (Click \<lparr>primary = ''#E1'', fallback = []\<rparr>), EvCollectState]))"
  using quietPage
  by (simp add: tryStep_quiet executeStep_def resolveRef_def callBrowser_def mkStep_def
        fuzzyTestState_def mkState_def mkElement_def textEnv_def successResult_def)

text \<open>
  A page that shows a CAPTCHA and a page that asks for a verification code: in both, the
  plan \<open>click E1, click E2\<close> ends with one failed result for \<open>S1\<close> and a trace of detector
  checks only. On a quiet page the click is dispatched after two silent checks.
\<close>

theorem detectors_guard_every_step_witness:
  "detectCaptcha textEnv ''Please complete the CAPTCHA''
   \<and> stepLoop textEnv
        [mkStep ''S1'' ''click'' (Some ''E1''), mkStep ''S2'' ''click'' (Some ''E2'')]
        fuzzyTestState [] (''Please complete the CAPTCHA'', [])
      = ([\<lparr>sr_id = ''S1'', sr_op = ''click'', sr_status = Failed, selectorUsed = None,
            sr_error = Some ''CAPTCHA detected, human intervention required''\<rparr>],
         fuzzyTestState, (''Please complete the CAPTCHA'', [EvDetectCaptcha True]))
   \<and> \<not> detectCaptcha textEnv ''Enter your Verification Code''
   \<and> detect2FA textEnv ''Enter your Verification Code''
   \<and> stepLoop textEnv
        [mkStep ''S1'' ''click'' (Some ''E1''), mkStep ''S2'' ''click'' (Some ''E2'')]
        fuzzyTestState [] (''Enter your Verification Code'', [])
      = ([\<lparr>sr_id = ''S1'', sr_op = ''click'', sr_status = Failed, selectorUsed = None,
            sr_error = Some ''2FA prompt detected, human intervention required''\<rparr>],
         fuzzyTestState,
         (''Enter your Verification Code'', [EvDetectCaptcha False, EvDetect2FA True]))
   \<and> guarded [EvDetectCaptcha False, EvDetect2FA False,
               EvBrowser (Click \<lparr>primary = ''#E1'', fallback = []\<rparr>), EvCollectState]"
proof -
  let ?steps = "[mkStep ''S1'' ''click'' (Some ''E1''), mkStep ''S2'' ''click'' (Some ''E2'')]"
  have c: "detectCaptcha textEnv ''Please complete the CAPTCHA''"
    and n: "\<not> detectCaptcha textEnv ''Enter your Verification Code''"
    and t: "detect2FA textEnv ''Enter your Verification Code''"
    using challengePages by blast+
  from detectors_guard_every_step[of textEnv "''Please complete the CAPTCHA''"
         "mkStep ''S1'' ''click'' (Some ''E1'')" "[mkStep ''S2'' ''click'' (Some ''E2'')]"
         fuzzyTestState "[]" "[]"] c
  have a: "stepLoop textEnv ?steps fuzzyTestState [] (''Please complete the CAPTCHA'', [])
      = ([\<lparr>sr_id = ''S1'', sr_op = ''click'', sr_status = Failed, selectorUsed = None,
            sr_error = Some ''CAPTCHA detected, human intervention required''\<rparr>],
         fuzzyTestState, (''Please complete the CAPTCHA'', [EvDetectCaptcha True]))"
    by (simp add: mkStep_def)
  from detectors_guard_every_step[of textEnv "''Enter your Verification Code''"
         "mkStep ''S1'' ''click'' (Some ''E1'')" "[mkStep ''S2'' ''click'' (Some ''E2'')]"
         fuzzyTestState "[]" "[]"] n t
  have b: "stepLoop textEnv ?steps fuzzyTestState [] (''Enter your Verification Code'', [])
      = ([\<lparr>sr_id = ''S1'', sr_op = ''click'', sr_status = Failed, selectorUsed = None,
            sr_error = Some ''2FA prompt detected, human intervention required''\<rparr>],
         fuzzyTestState,
         (''Enter your Verification Code'', [EvDetectCaptcha False, EvDetect2FA True]))"
    by (simp add: mkStep_def)
  from detectors_guard_every_step[of textEnv "''Example Domain''"
         "mkStep ''S1'' ''click'' (Some ''E1'')" "[]" fuzzyTestState "[]" "[]"] quietRun
  have g: "guarded [EvDetectCaptcha False, EvDetect2FA False,
               EvBrowser (Click \<lparr>primary = ''#E1'', fallback = []\<rparr>), EvCollectState]"
    by simp
  from c a n t b g show ?thesis by blast
qed

text \<open>
  Claim C9. \<open>executePlan\<close> never emits the status \<open>skipped\<close>.
  \<^item> Every result the loop appends has status \<open>success\<close> or \<open>failed\<close>, and so has every
    result of a run log that \<open>executePlan\<close> returns.
  \<^item> For a step whose \<open>op\<close> is none of the eight operations \<open>executeStep\<close> returns
    \<open>undefined\<close> and leaves the session, trace included, as it was: no browser action is
    dispatched.
  \<^item> When neither detector fires before such a step, the loop records it as \<open>success\<close>
    with no selector, tries to collect a fresh state and goes on with the next step.
\<close>

theorem no_skipped_results:
  "(\<forall>stps cs results w tr results' cs' sess'.
       stepLoop env stps cs results (w, tr) = (results', cs', sess') \<longrightarrow>
       (\<exists>newr. results' = results @ newr
          \<and> (\<forall>sr \<in> set newr. sr_status sr = Success \<or> sr_status sr = Failed)))
   \<and> (\<forall>plan cs path w tr log sess'.
       executePlan env plan cs path (w, tr) = (Inr log, sess') \<longrightarrow>
       (\<forall>sr \<in> set (rl_steps log). sr_status sr \<noteq> Skipped))
   \<and> (\<forall>step cs sess. op step \<notin> set stepOps \<longrightarrow> executeStep env step cs sess = (Inr None, sess))
   \<and> (\<forall>step rest cs results w tr.
       op step \<notin> set stepOps \<and> \<not> detectCaptcha env w \<and> \<not> detect2FA env w \<longrightarrow>
       stepLoop env (step # rest) cs results (w, tr) =
         stepLoop env rest
           (case collectState env w (runId (meta cs)) of None \<Rightarrow> cs | Some fresh \<Rightarrow> fresh)
           (results @
              [\<lparr>sr_id = step_id step, sr_op = op step, sr_status = Success,
                selectorUsed = None, sr_error = None\<rparr>])
           (w, tr @ [EvDetectCaptcha False, EvDetect2FA False, EvCollectState]))"
proof (intro conjI allI impI)
  fix stps cs results w tr results' cs' sess'
  assume a: "stepLoop env stps cs results (w, tr) = (results', cs', sess')"
  obtain w' tr' where "sess' = (w', tr')" by (cases sess')
  with a have "stepLoop env stps cs results (w, tr) = (results', cs', (w', tr'))" by simp
  from stepLoop_invariant[OF this]
  show "\<exists>newr. results' = results @ newr
          \<and> (\<forall>sr \<in> set newr. sr_status sr = Success \<or> sr_status sr = Failed)"
    by blast
next
  fix plan cs path w tr log sess'
  assume a: "executePlan env plan cs path (w, tr) = (Inr log, sess')"
  let ?w = "dismissModal env (handleCookieBanner env w)"
  let ?tr = "tr @ [EvCookieBanner, EvDismissModal]"
  obtain rs cs' w' tr' where
    r: "stepLoop env (steps plan) cs [] (?w, ?tr) = (rs, cs', (w', tr'))"
    by (metis prod.exhaust)
  from executePlan_steps[OF a] r have l: "rl_steps log = rs" by simp
  from stepLoop_invariant[OF r] have "\<forall>sr \<in> set rs. sr_status sr = Success \<or> sr_status sr = Failed"
    by auto
  with l show "\<forall>sr \<in> set (rl_steps log). sr_status sr \<noteq> Skipped" by auto
next
  fix step :: Step and cs sess
  assume "op step \<notin> set stepOps"
  then show "executeStep env step cs sess = (Inr None, sess)" by (rule executeStep_unknown_op)
next
  fix step :: Step and rest cs results w tr
  assume a: "op step \<notin> set stepOps \<and> \<not> detectCaptcha env w \<and> \<not> detect2FA env w"
  then have "tryStep env step cs (w, tr) =
      (Inr None, (w, tr @ [EvDetectCaptcha False, EvDetect2FA False]))"
    by (simp add: tryStep_quiet executeStep_unknown_op)
  from stepLoop_success[OF this]
  show "stepLoop env (step # rest) cs results (w, tr) =
         stepLoop env rest
           (case collectState env w (runId (meta cs)) of None \<Rightarrow> cs | Some fresh \<Rightarrow> fresh)
           (results @
              [\<lparr>sr_id = step_id step, sr_op = op step, sr_status = Success,
                selectorUsed = None, sr_error = None\<rparr>])
           (w, tr @ [EvDetectCaptcha False, EvDetect2FA False, EvCollectState])"
    by (simp add: successResult_def)
qed


text \<open>
  A step with the unknown operation \<open>hover\<close> on a quiet page: \<open>executeStep\<close> returns with
  the trace untouched, and the loop records \<open>success\<close> with no browser call on the trace.
\<close>

theorem no_skipped_results_witness:
  "op (mkStep ''S1'' ''hover'' (Some ''E1'')) \<notin> set stepOps
   \<and> \<not> detectCaptcha textEnv ''Example Domain'' \<and> \<not> detect2FA textEnv ''Example Domain''
   \<and> executeStep textEnv (mkStep ''S1'' ''hover'' (Some ''E1'')) fuzzyTestState
        (''Example Domain'', []) = (Inr None, (''Example Domain'', []))
   \<and> stepLoop textEnv [mkStep ''S1'' ''hover'' (Some ''E1'')] fuzzyTestState []
        (''Example Domain'', [])
      = ([\<lparr>sr_id = ''S1'', sr_op = ''hover'', sr_status = Success, selectorUsed = None,
            sr_error = None\<rparr>],
         fuzzyTestState,
         (''Example Domain'', [EvDetectCaptcha False, EvDetect2FA False, EvCollectState]))"
proof -
  let ?s = "mkStep ''S1'' ''hover'' (Some ''E1'')"
  have o: "op ?s \<notin> set stepOps" by (simp add: mkStep_def stepOps_def)
  have q1: "\<not> detectCaptcha textEnv ''Example Domain''" using quietPage by blast
  have q2: "\<not> detect2FA textEnv ''Example Domain''" using quietPage by blast
  from no_skipped_results[of textEnv] o
  have e: "executeStep textEnv ?s fuzzyTestState (''Example Domain'', [])
             = (Inr None, (''Example Domain'', []))"
    by blast
  from no_skipped_results[of textEnv] o q1 q2
  have "stepLoop textEnv (?s # []) fuzzyTestState [] (''Example Domain'', []) =
         stepLoop textEnv []
           (case collectState textEnv ''Example Domain'' (runId (meta fuzzyTestState)) of
              None \<Rightarrow> fuzzyTestState | Some fresh \<Rightarrow> fresh)
           ([] @
              [\<lparr>sr_id = step_id ?s, sr_op = op ?s, sr_status = Success,
                selectorUsed = None, sr_error = None\<rparr>])
           (''Example Domain'', [] @ [EvDetectCaptcha False, EvDetect2FA False, EvCollectState])"
    by blast
  then have l: "stepLoop textEnv [?s] fuzzyTestState [] (''Example Domain'', [])
      = ([\<lparr>sr_id = ''S1'', sr_op = ''hover'', sr_status = Success, selectorUsed = None,
            sr_error = None\<rparr>],
         fuzzyTestState,
         (''Example Domain'', [EvDetectCaptcha False, EvDetect2FA False, EvCollectState]))"
    by (simp add: mkStep_def textEnv_def)
  from o q1 q2 e l show ?thesis by blast
qed


subsection \<open>Macro parameters\<close>

text \<open>
  What \<open>applyParams\<close> does to the serialized plan. For any replacer: text that holds no
  token is unchanged; a token is replaced by the replacer's text for its name and the
  scan resumes after it; a replacer that answers every name with the token itself
  changes nothing. With the replacer of \<open>applyParams\<close>: a token whose name is an own key
  of \<open>params\<close> is replaced by the supplied value; a token whose name is neither an own
  key nor a member of \<open>Object.prototype\<close> is left verbatim; and a plan whose serialized
  form holds no token is only serialized and parsed again.
\<close>

lemma replaceTokens_no_token: "\<not> hasToken s \<Longrightarrow> replaceTokens f s = s"
  by (induction s) auto

lemma startsWith_brace: "startsWith d ''}'' \<Longrightarrow> d = CHR ''}'' # tl d"
  by (cases d) simp_all

lemma replaceTokens_verbatim:
  "(\<And>n. f n = ''{'' @ n @ ''}'') \<Longrightarrow> replaceTokens f s = s"
proof (induction f s rule: replaceTokens.induct)
  case (1 replacer)
  then show ?case by simp
next
  case (2 replacer c cs)
  show ?case
  proof (cases "c = CHR ''{'' \<and> takeWhile wordChar cs \<noteq> []
          \<and> startsWith (dropWhile wordChar cs) ''}''")
    case True
    then have d: "dropWhile wordChar cs = CHR ''}'' # tl (dropWhile wordChar cs)"
      using startsWith_brace by blast
    have "replaceTokens replacer (c # cs) =
            replacer (takeWhile wordChar cs) @ replaceTokens replacer (tl (dropWhile wordChar cs))"
      using True by simp
    also have "\<dots> = ''{'' @ takeWhile wordChar cs @ ''}'' @ tl (dropWhile wordChar cs)"
    proof -
      have ih: "replaceTokens replacer (tl (dropWhile wordChar cs)) = tl (dropWhile wordChar cs)"
        by (rule "2.IH"(1)[OF True "2.prems"])
      have r: "replacer (takeWhile wordChar cs) = ''{'' @ takeWhile wordChar cs @ ''}''"
        by (rule "2.prems")
      show ?thesis unfolding ih r by simp
    qed
    also have "\<dots> = CHR ''{'' # takeWhile wordChar cs @ dropWhile wordChar cs"
      using d by (metis append_Cons append_Nil)
    also have "\<dots> = c # cs" using True by simp
    finally show ?thesis .
  next
    case False
    have ih: "replaceTokens replacer cs = cs" by (rule "2.IH"(2)[OF False "2.prems"])
    have "replaceTokens replacer (c # cs) = c # replaceTokens replacer cs"
      using False by auto
    then show ?thesis unfolding ih .
  qed
qed

lemma replaceTokens_token:
  assumes "n \<noteq> []" and "\<forall>c \<in> set n. wordChar c"
  shows "replaceTokens f (''{'' @ n @ ''}'' @ rest) = f n @ replaceTokens f rest"
proof -
  have nb: "\<not> wordChar CHR ''}''" by (simp add: wordChar_def)
  have t: "takeWhile wordChar (n @ ''}'' @ rest) = n"
    using assms(2) nb by (simp add: takeWhile_append2)
  have d: "dropWhile wordChar (n @ ''}'' @ rest) = ''}'' @ rest"
    using assms(2) nb by (simp add: dropWhile_append2)
  show ?thesis using assms(1) t d by simp
qed

lemma fillParams_supplied:
  "n \<noteq> [] \<Longrightarrow> \<forall>c \<in> set n. wordChar c \<Longrightarrow> map_of params n = Some v \<Longrightarrow>
   fillParams params (''{'' @ n @ ''}'' @ rest) = v @ fillParams params rest"
  using replaceTokens_token[of n "paramReplacer params" rest]
  by (simp add: fillParams_def paramReplacer_def getProperty_def del: replaceTokens.simps)

lemma applyParams_placeholder_free:
  "\<not> hasToken (stringify plan) \<Longrightarrow>
   applyParams stringify parse plan params = parse (stringify plan)"
  by (simp add: applyParams_def fillParams_def replaceTokens_no_token)

lemma fillParams_unsupplied:
  "n \<noteq> [] \<Longrightarrow> \<forall>c \<in> set n. wordChar c \<Longrightarrow> getProperty params n = None \<Longrightarrow>
   fillParams params (''{'' @ n @ ''}'' @ rest) = ''{'' @ n @ ''}'' @ fillParams params rest"
  using replaceTokens_token[of n "paramReplacer params" rest]
  by (simp add: fillParams_def paramReplacer_def del: replaceTokens.simps)

text \<open>
  Claim C8, at the input where the code departs from it. The plan
  \<open>{"goal":"{constructor}","steps":[{"id":"S1","op":"navigate","url":"https://example.com"}]}\<close>
  is filled with the empty parameter object. \<open>constructor\<close> is not supplied, yet
  \<open>params["constructor"]\<close> is the function \<open>Object\<close> inherited from \<open>Object.prototype\<close>,
  so the \<open>??\<close> does not fall back to the token and the token is replaced by the
  function's text. The same happens to \<open>{toString}\<close>, with or without other parameters,
  while the unsupplied \<open>{email}\<close> beside it is left verbatim and the supplied one is
  substituted.
\<close>

theorem applyParams_inherited_name_replaced:
  \<open>fillParams []
     ''{"goal":"{constructor}","steps":[{"id":"S1","op":"navigate","url":"https://example.com"}]}''
   = ''{"goal":"function Object() { [native code] }","steps":[{"id":"S1","op":"navigate","url":"https://example.com"}]}''
   \<and> fillParams [] ''{"goal":"{toString} of {email}"}''
     = ''{"goal":"function toString() { [native code] } of {email}"}''
   \<and> fillParams [(''email'', ''a@b.com'')] ''{"goal":"{toString} of {email}"}''
     = ''{"goal":"function toString() { [native code] } of a@b.com"}''
   \<and> map_of [] ''constructor'' = (None :: string option)
   \<and> paramReplacer [] ''constructor'' \<noteq> ''{constructor}''\<close>
  by code_simp


end
